theory Spec2Isabelle
  imports Main "HOL-Library.Word"
begin

unbundle bit_operations_syntax

section \<open>Values of the driver\<close>

text \<open>
  The Si4713 driver exists twice in the repository.  \<^verbatim>\<open>src/radio/radio.go\<close> keeps
  package-level command templates (\<^verbatim>\<open>var cmdTuneFM = command{...}\<close>) and patches their
  bytes in place before each send; \<^verbatim>\<open>src/unnamed/part_001\<close> builds a fresh frame per
  call (\<^verbatim>\<open>func cmdTuneFM(h, l uint8) command\<close>).  Definitions that embed
  \<^verbatim>\<open>radio.go\<close> carry the source's names; those that embed \<^verbatim>\<open>part_001\<close> carry the
  suffix \<open>_p1\<close>.  Functions whose text is the same in both files and that touch no
  template are embedded once.

  Go's \<^verbatim>\<open>uint8\<close> and \<^verbatim>\<open>uint16\<close> are words; \<^verbatim>\<open>command\<close> is \<^verbatim>\<open>[]uint8\<close>.
\<close>

type_synonym byte = "8 word"
type_synonym uint16 = "16 word"
type_synonym command = "byte list"

abbreviation (input) STATUS_CTS :: byte where "STATUS_CTS \<equiv> 0x80"
abbreviation (input) CMD_POWER_UP :: byte where "CMD_POWER_UP \<equiv> 0x01"
abbreviation (input) CMD_GET_REV :: byte where "CMD_GET_REV \<equiv> 0x10"
abbreviation (input) CMD_POWER_DOWN :: byte where "CMD_POWER_DOWN \<equiv> 0x11"
abbreviation (input) CMD_SET_PROPERTY :: byte where "CMD_SET_PROPERTY \<equiv> 0x12"
abbreviation (input) CMD_GET_INT_STATUS :: byte where "CMD_GET_INT_STATUS \<equiv> 0x14"
abbreviation (input) CMD_TX_TUNE_FREQ :: byte where "CMD_TX_TUNE_FREQ \<equiv> 0x30"
abbreviation (input) CMD_TX_TUNE_POWER :: byte where "CMD_TX_TUNE_POWER \<equiv> 0x31"
abbreviation (input) CMD_TX_TUNE_MEASURE :: byte where "CMD_TX_TUNE_MEASURE \<equiv> 0x32"
abbreviation (input) CMD_TX_TUNE_STATUS :: byte where "CMD_TX_TUNE_STATUS \<equiv> 0x33"
abbreviation (input) CMD_TX_ASQ_STATUS :: byte where "CMD_TX_ASQ_STATUS \<equiv> 0x34"
abbreviation (input) CMD_TX_RDS_BUFF :: byte where "CMD_TX_RDS_BUFF \<equiv> 0x35"
abbreviation (input) CMD_TX_RDS_PS :: byte where "CMD_TX_RDS_PS \<equiv> 0x36"
abbreviation (input) CMD_GPO_CTL :: byte where "CMD_GPO_CTL \<equiv> 0x80"
abbreviation (input) CMD_GPO_SET :: byte where "CMD_GPO_SET \<equiv> 0x81"

abbreviation (input) PROP_REFCLK_FREQ :: uint16 where "PROP_REFCLK_FREQ \<equiv> 0x0201"
abbreviation (input) PROP_TX_PREEMPHASIS :: uint16 where "PROP_TX_PREEMPHASIS \<equiv> 0x2106"
abbreviation (input) PROP_TX_ACOMP_ENABLE :: uint16 where "PROP_TX_ACOMP_ENABLE \<equiv> 0x2200"
abbreviation (input) PROP_TX_ACOMP_GAIN :: uint16 where "PROP_TX_ACOMP_GAIN \<equiv> 0x2204"

text \<open>
  A call of a \<^verbatim>\<open>printf\<close>-style function (\<^verbatim>\<open>fmt.Errorf\<close>, the log sinks) is kept as
  its format string and its arguments, unrendered.  \<open>ArgHundredths f\<close> stands for the
  argument \<^verbatim>\<open>float32(f)/100\<close>, \<open>ArgSlice v\<close> for \<^verbatim>\<open>s.sliceToString(v)\<close>.
\<close>

datatype arg = ArgInt int | ArgStr string | ArgSlice "byte list" | ArgHundredths int

text \<open>An error is one of the transport's (numbered) or one built by \<^verbatim>\<open>fmt.Errorf\<close>.\<close>

datatype error = BusError nat | Errorf string "arg list"

text \<open>
  A Go call returns, panics, or does not return.  \<open>Starved\<close> is the last: the call
  waits for a transport response that the finite script of the bus does not hold.
  The value returned carries Go's \<^verbatim>\<open>error\<close> result as an \<open>error option\<close>
  (\<open>None\<close> is \<^verbatim>\<open>nil\<close>).
\<close>

datatype 'a outcome = Ret 'a | Panic string | Starved

type_synonym ('s, 'a) prog = "'s \<Rightarrow> 'a outcome \<times> 's"

definition ret :: "'a \<Rightarrow> ('s, 'a) prog" where
  "ret x = (\<lambda>s. (Ret x, s))"

definition panic :: "string \<Rightarrow> ('s, 'a) prog" where
  "panic msg = (\<lambda>s. (Panic msg, s))"

definition bindP :: "('s, 'a) prog \<Rightarrow> ('a \<Rightarrow> ('s, 'b) prog) \<Rightarrow> ('s, 'b) prog" where
  "bindP m f = (\<lambda>s. case m s of
      (Ret a, s') \<Rightarrow> f a s'
    | (Panic msg, s') \<Rightarrow> (Panic msg, s')
    | (Starved, s') \<Rightarrow> (Starved, s'))"

definition seqP :: "('s, unit) prog \<Rightarrow> ('s, 'b) prog \<Rightarrow> ('s, 'b) prog" where
  "seqP m k = bindP m (\<lambda>_. k)"

text \<open>\<^verbatim>\<open>if err := m(); err != nil { return err }\<close> followed by \<open>k\<close>.\<close>

definition ifOk :: "('s, error option) prog \<Rightarrow> ('s, error option) prog \<Rightarrow> ('s, error option) prog" where
  "ifOk m k = bindP m (\<lambda>e. case e of None \<Rightarrow> k | Some x \<Rightarrow> ret (Some x))"

section \<open>The bus transport and the log sinks\<close>

text \<open>
  The transport is an external collaborator.  It is a script: for each kind of call the
  responses it will give, in order.  \<open>None\<close> acknowledges a write, \<open>Some n\<close> fails it with
  the transport's error \<open>n\<close>; \<open>Inr\<close> delivers data to a read, \<open>Inl n\<close> fails it.
  \<open>trace\<close> records every call that got a response, \<open>logged\<close> every call of a log
  sink.  \<^verbatim>\<open>time.Sleep\<close> is not modelled.

  The driver is an object that \<^verbatim>\<open>Start\<close> changes in place when it assigns the field
  \<^verbatim>\<open>s.conn\<close>, so that field is part of the state: \<open>conn\<close> says that \<^verbatim>\<open>s.conn\<close> holds a
  connection, \<open>\<not> conn\<close> that it is \<^verbatim>\<open>nil\<close> (as it is in a driver that was never
  started).  A method call on the \<^verbatim>\<open>nil\<close> interface value panics.
\<close>

datatype sink = Sink nat

datatype event =
    EvConnect nat
  | EvDigitalWrite string nat
  | EvWrite command
  | EvWriteByte byte
  | EvReadByte
  | EvRead nat

record bus =
  conn :: bool
  digitalWriter :: bool
  connect_acks :: "nat option list"
  pin_acks :: "nat option list"
  write_acks :: "nat option list"
  byte_reads :: "(nat + byte) list"
  buf_reads :: "(nat + byte list) list"
  trace :: "event list"
  logged :: "(sink \<times> string \<times> arg list) list"

abbreviation (input) nil_dereference :: string where
  "nil_dereference \<equiv> ''invalid memory address or nil pointer dereference''"

definition conn_Write :: "command \<Rightarrow> ('a bus_scheme, error option) prog" where
  "conn_Write cmd = (\<lambda>b.
     if \<not> conn b then (Panic nil_dereference, b)
     else case write_acks b of
      [] \<Rightarrow> (Starved, b)
    | a # as \<Rightarrow> (Ret (map_option BusError a),
                 b\<lparr>write_acks := as, trace := trace b @ [EvWrite cmd]\<rparr>))"

definition conn_WriteByte :: "byte \<Rightarrow> ('a bus_scheme, error option) prog" where
  "conn_WriteByte v = (\<lambda>b.
     if \<not> conn b then (Panic nil_dereference, b)
     else case write_acks b of
      [] \<Rightarrow> (Starved, b)
    | a # as \<Rightarrow> (Ret (map_option BusError a),
                 b\<lparr>write_acks := as, trace := trace b @ [EvWriteByte v]\<rparr>))"

definition conn_ReadByte :: "('a bus_scheme, byte \<times> error option) prog" where
  "conn_ReadByte = (\<lambda>b.
     if \<not> conn b then (Panic nil_dereference, b)
     else case byte_reads b of
      [] \<Rightarrow> (Starved, b)
    | r # rs \<Rightarrow> (Ret (case r of Inl n \<Rightarrow> (0, Some (BusError n)) | Inr v \<Rightarrow> (v, None)),
                 b\<lparr>byte_reads := rs, trace := trace b @ [EvReadByte]\<rparr>))"

text \<open>
  \<^verbatim>\<open>conn.Read(values)\<close> on a zeroed buffer of \<open>sz\<close> bytes: the buffer afterwards, the
  count and the error.  The transport delivers at most \<open>sz\<close> bytes.
\<close>

definition conn_Read :: "nat \<Rightarrow> ('a bus_scheme, byte list \<times> nat \<times> error option) prog" where
  "conn_Read sz = (\<lambda>b.
     if \<not> conn b then (Panic nil_dereference, b)
     else case buf_reads b of
      [] \<Rightarrow> (Starved, b)
    | r # rs \<Rightarrow> (Ret (case r of
                     Inl n \<Rightarrow> (replicate sz 0, 0, Some (BusError n))
                   | Inr bs \<Rightarrow> (take sz bs @ replicate (sz - length bs) 0,
                               min sz (length bs), None)),
                 b\<lparr>buf_reads := rs, trace := trace b @ [EvRead sz]\<rparr>))"

text \<open>Calling a sink; a \<^verbatim>\<open>nil\<close> function value panics.\<close>

definition logf :: "sink option \<Rightarrow> string \<Rightarrow> arg list \<Rightarrow> ('a bus_scheme, unit) prog" where
  "logf k fmt args = (\<lambda>b. case k of
      None \<Rightarrow> (Panic nil_dereference, b)
    | Some f \<Rightarrow> (Ret (), b\<lparr>logged := logged b @ [(f, fmt, args)]\<rparr>))"

text \<open>\<^verbatim>\<open>if s.debugMode { s.debugLog(fmt, args...) }\<close>\<close>

definition debugf :: "bool \<Rightarrow> sink option \<Rightarrow> string \<Rightarrow> arg list \<Rightarrow> ('a bus_scheme, unit) prog" where
  "debugf dm dl fmt args = (if dm then logf dl fmt args else ret ())"

definition sliceToString :: "byte list \<Rightarrow> arg" where
  "sliceToString val = ArgSlice val"

text \<open>The frames written with \<^verbatim>\<open>conn.Write\<close>, and the number of single-byte reads.\<close>

fun frame_of :: "event \<Rightarrow> command list" where
  "frame_of (EvWrite c) = [c]"
| "frame_of _ = []"

definition frames :: "'a bus_scheme \<Rightarrow> command list" where
  "frames b = concat (map frame_of (trace b))"

definition byte_read_count :: "'a bus_scheme \<Rightarrow> nat" where
  "byte_read_count b = length (filter (\<lambda>e. e = EvReadByte) (trace b))"

section \<open>Configuration and driver\<close>

text \<open>
  \<^verbatim>\<open>Si4713Config\<close>.  \<^verbatim>\<open>part_001\<close> names three of the fields \<^verbatim>\<open>RDSProgramID\<close>,
  \<^verbatim>\<open>RDSStationName\<close> and \<^verbatim>\<open>RDSMessage\<close>; the record keeps the names of
  \<^verbatim>\<open>radio.go\<close>.  A sink field is \<open>None\<close> when the function value is \<^verbatim>\<open>nil\<close>.
\<close>

record Si4713Config =
  TransmitFrequency :: uint16
  AlternateFrequency :: uint16
  TransmitPower :: byte
  ResetPin :: string
  DebugMode :: bool
  WithFrequencyScan :: bool
  StopAfterFrequencyScan :: bool
  HasRDS :: bool
  ProgramID :: uint16
  StationName :: string
  RdsMessage :: string
  DebugLog :: "sink option"
  Log :: "sink option"

text \<open>\<^verbatim>\<open>Si4713Driver\<close> of \<^verbatim>\<open>radio.go\<close> (the configuration copied field by field).\<close>

record Si4713Driver =
  resetPin :: string
  i2cAddr :: nat
  debugMode :: bool
  debugLog :: "sink option"
  log :: "sink option"
  programID :: uint16
  name :: string
  transmitPower :: byte
  transmitFrequency :: uint16
  alternateFrequency :: uint16
  stopAfterFrequencyScan :: bool
  withFrequencyScan :: bool
  hasRDS :: bool
  stationName :: string
  rdsMessage :: string

text \<open>\<^verbatim>\<open>Si4713Driver\<close> of \<^verbatim>\<open>part_001\<close> (the configuration embedded).\<close>

record Si4713Driver_p1 =
  name_p1 :: string
  i2cAddr_p1 :: nat
  config :: Si4713Config

section \<open>The command templates of radio.go\<close>

datatype template =
    CmdPowerUp | CmdPowerDown | CmdGetRev | CmdTuneFM | CmdReadTuneStatus
  | CmdTuneMeasure | CmdSetTxPower | CmdSetProperty | CmdSetRDSStationName
  | CmdSetRDSMessage | CmdSetGPIOCtrl | CmdSetGPIO | CmdASQStatus

text \<open>The package-level variables as initialised.\<close>

fun templates0 :: "template \<Rightarrow> command" where
  "templates0 CmdPowerUp = [CMD_POWER_UP, 0x12, 0x50]"
| "templates0 CmdPowerDown = [CMD_POWER_DOWN, 0]"
| "templates0 CmdGetRev = [CMD_GET_REV, 0]"
| "templates0 CmdTuneFM = [CMD_TX_TUNE_FREQ, 0, 0, 0]"
| "templates0 CmdReadTuneStatus = [CMD_TX_TUNE_STATUS, 0x1]"
| "templates0 CmdTuneMeasure = [CMD_TX_TUNE_MEASURE, 0, 0, 0, 0]"
| "templates0 CmdSetTxPower = [CMD_TX_TUNE_POWER, 0, 0, 0, 0]"
| "templates0 CmdSetProperty = [CMD_SET_PROPERTY, 0, 0, 0, 0, 0]"
| "templates0 CmdSetRDSStationName = [CMD_TX_RDS_PS, 0, 0, 0, 0, 0]"
| "templates0 CmdSetRDSMessage = [CMD_TX_RDS_BUFF, 0, 0, 0, 0, 0, 0, 0]"
| "templates0 CmdSetGPIOCtrl = [CMD_GPO_CTL, 0]"
| "templates0 CmdSetGPIO = [CMD_GPO_SET, 0]"
| "templates0 CmdASQStatus = [CMD_TX_ASQ_STATUS, 0x1]"

text \<open>The world of \<^verbatim>\<open>radio.go\<close>: the bus and the store of the templates.\<close>

record world = bus +
  tmpl :: "template \<Rightarrow> command"

text \<open>\<^verbatim>\<open>t[i] = v\<close> on a template; Go panics when the index is out of range.\<close>

definition assign :: "template \<Rightarrow> nat \<Rightarrow> byte \<Rightarrow> (world, unit) prog" where
  "assign t i v = (\<lambda>w. if i < length (tmpl w t)
      then (Ret (), w\<lparr>tmpl := (tmpl w)(t := (tmpl w t)[i := v])\<rparr>)
      else (Panic ''index out of range'', w))"

section \<open>The send-command handshake\<close>

text \<open>
  The loop of \<^verbatim>\<open>sendCommand\<close>, the same in both files:
  \<^verbatim>\<open>for status&STATUS_CTS == 0 { status, err = s.conn.ReadByte(); ... }\<close>
\<close>

function waitCTS :: "bool \<Rightarrow> sink option \<Rightarrow> byte \<Rightarrow> ('a bus_scheme, error option) prog" where
  "waitCTS dm dl status b =
    (if status AND STATUS_CTS = 0 then
       (case conn_ReadByte b of
          (Ret (st, Some e), b') \<Rightarrow> (Ret (Some e), b')
        | (Ret (st, None), b') \<Rightarrow>
            (case debugf dm dl ''status: %x (%d)\<newline>'' [ArgInt (uint st), ArgInt (uint st)] b' of
               (Ret _, b'') \<Rightarrow> waitCTS dm dl st b''
             | (Panic msg, b'') \<Rightarrow> (Panic msg, b'')
             | (Starved, b'') \<Rightarrow> (Starved, b''))
        | (Panic msg, b') \<Rightarrow> (Panic msg, b')
        | (Starved, b') \<Rightarrow> (Starved, b'))
     else (Ret None, b))"
  by pat_completeness auto

termination
  by (relation "measure (\<lambda>(dm, dl, st, b). length (byte_reads b))")
     (auto simp: conn_ReadByte_def debugf_def logf_def ret_def
           split: list.splits if_splits option.splits sum.splits)

text \<open>\<^verbatim>\<open>sendCommand\<close> of \<^verbatim>\<open>part_001\<close>; \<^verbatim>\<open>cmd[0]\<close> panics on an empty frame.\<close>

definition sendCommand_p1 :: "Si4713Driver_p1 \<Rightarrow> command \<Rightarrow> ('a bus_scheme, error option) prog" where
  "sendCommand_p1 s cmd =
     seqP (debugf (DebugMode (config s)) (DebugLog (config s))
             ''*** Command: %s\<newline>'' [sliceToString cmd])
    (ifOk (conn_Write cmd)
    (case cmd of
       [] \<Rightarrow> panic ''index out of range''
     | c0 # _ \<Rightarrow>
         if c0 = CMD_POWER_DOWN then ret None
         else waitCTS (DebugMode (config s)) (DebugLog (config s)) 0))"

text \<open>
  \<^verbatim>\<open>sendCommand\<close> of \<^verbatim>\<open>radio.go\<close>: the opcode is compared with the first byte of the
  template \<^verbatim>\<open>cmdPowerDown\<close>.
\<close>

definition sendCommand :: "Si4713Driver \<Rightarrow> command \<Rightarrow> (world, error option) prog" where
  "sendCommand s cmd =
     seqP (debugf (debugMode s) (debugLog s) ''*** Command: %s\<newline>'' [sliceToString cmd])
    (ifOk (conn_Write cmd)
    (\<lambda>w. case cmd of
       [] \<Rightarrow> (Panic ''index out of range'', w)
     | c0 # _ \<Rightarrow>
         (case tmpl w CmdPowerDown of
            [] \<Rightarrow> (Panic ''index out of range'', w)
          | p0 # _ \<Rightarrow>
              if c0 = p0 then (Ret None, w)
              else waitCTS (debugMode s) (debugLog s) 0 w)))"

text \<open>\<^verbatim>\<open>s.sendCommand(cmdX)\<close> with a template of the store as the argument.\<close>

definition sendT :: "Si4713Driver \<Rightarrow> template \<Rightarrow> (world, error option) prog" where
  "sendT s t = (\<lambda>w. sendCommand s (tmpl w t) w)"

text \<open>
  The bytes of a template that no statement of \<^verbatim>\<open>radio.go\<close> assigns, and the invariant
  of the store: every template keeps its length and those bytes.
\<close>

fun fixed :: "template \<Rightarrow> nat list" where
  "fixed CmdPowerUp = [0, 1, 2]"
| "fixed CmdPowerDown = [0, 1]"
| "fixed CmdGetRev = [0, 1]"
| "fixed CmdTuneFM = [0, 1]"
| "fixed CmdReadTuneStatus = [0, 1]"
| "fixed CmdTuneMeasure = [0, 1, 4]"
| "fixed CmdSetTxPower = [0, 1, 2]"
| "fixed CmdSetProperty = [0, 1]"
| "fixed CmdSetRDSStationName = [0]"
| "fixed CmdSetRDSMessage = []"
| "fixed CmdSetGPIOCtrl = [0]"
| "fixed CmdSetGPIO = [0]"
| "fixed CmdASQStatus = [0, 1]"

definition all_templates :: "template list" where
  "all_templates = [CmdPowerUp, CmdPowerDown, CmdGetRev, CmdTuneFM, CmdReadTuneStatus,
     CmdTuneMeasure, CmdSetTxPower, CmdSetProperty, CmdSetRDSStationName,
     CmdSetRDSMessage, CmdSetGPIOCtrl, CmdSetGPIO, CmdASQStatus]"

definition tmpl_ok :: "(template \<Rightarrow> command) \<Rightarrow> bool" where
  "tmpl_ok T = list_all (\<lambda>t. length (T t) = length (templates0 t) \<and>
                           list_all (\<lambda>i. T t ! i = templates0 t ! i) (fixed t)) all_templates"

section \<open>Functions that are the same in both files\<close>

text \<open>
  Two more idioms.  \<open>tryE m z k\<close>: \<^verbatim>\<open>if err = m(); err != nil { return z, err }\<close>, then
  \<open>k\<close>.  \<open>tryV m z k\<close>: \<^verbatim>\<open>v, err := m(); if err != nil { return z, err }\<close>, then
  \<open>k v\<close>.
\<close>

definition tryE :: "('s, error option) prog \<Rightarrow> 'r \<Rightarrow> ('s, 'r \<times> error option) prog
    \<Rightarrow> ('s, 'r \<times> error option) prog" where
  "tryE m z k = bindP m (\<lambda>e. case e of None \<Rightarrow> k | Some x \<Rightarrow> ret (z, Some x))"

definition tryV :: "('s, 'a \<times> error option) prog \<Rightarrow> 'r \<Rightarrow> ('a \<Rightarrow> ('s, 'r \<times> error option) prog)
    \<Rightarrow> ('s, 'r \<times> error option) prog" where
  "tryV m z k = bindP m (\<lambda>(v, e). case e of None \<Rightarrow> k v | Some x \<Rightarrow> ret (z, Some x))"

text \<open>\<^verbatim>\<open>getStatus\<close>: write the opcode byte, read one byte.\<close>

definition getStatus :: "('a bus_scheme, byte \<times> error option) prog" where
  "getStatus = tryE (conn_WriteByte CMD_GET_INT_STATUS) 0 conn_ReadByte"

text \<open>
  \<^verbatim>\<open>buffRead\<close>.  \<^verbatim>\<open>values\<close> is \<^verbatim>\<open>make([]byte, size)\<close>, so \<^verbatim>\<open>len(values)\<close> is
  \<open>sz\<close> whatever the transport delivered; the error is built from \<^verbatim>\<open>size\<close>,
  \<^verbatim>\<open>len(values)\<close> and the rendered buffer.  A \<^verbatim>\<open>nil\<close> slice is \<open>None\<close>.
\<close>

definition buffRead :: "bool \<Rightarrow> sink option \<Rightarrow> nat
    \<Rightarrow> ('a bus_scheme, byte list option \<times> error option) prog" where
  "buffRead dm dl sz =
     bindP (conn_Read sz) (\<lambda>(values, nValues, err).
       case err of
         Some e \<Rightarrow> ret (None, Some e)
       | None \<Rightarrow>
           if nValues \<noteq> sz then
             ret (None, Some (Errorf ''failed to read %d bytes from the line, read %d -> %s''
                    [ArgInt (int sz), ArgInt (int (length values)), sliceToString values]))
           else seqP (debugf dm dl ''read %d bytes: %s'' [ArgInt (int sz), sliceToString values])
                  (ret (Some values, None)))"



definition DigitalWrite :: "string \<Rightarrow> nat \<Rightarrow> ('a bus_scheme, error option) prog" where
  "DigitalWrite pin level = (\<lambda>b. case pin_acks b of
      [] \<Rightarrow> (Starved, b)
    | a # as \<Rightarrow> (Ret (map_option BusError a),
                 b\<lparr>pin_acks := as, trace := trace b @ [EvDigitalWrite pin level]\<rparr>))"

text \<open>
  \<^verbatim>\<open>s.i2cConnector.GetConnection(addr, bus)\<close> returns a connection and an error.  When
  it fails the connection is \<^verbatim>\<open>nil\<close>
  (\<^verbatim>\<open>return nil, errors.New("Invalid i2c connection")\<close> in the connector of the
  repository's tests); the first component says that a connection was returned.
\<close>

definition GetConnection :: "nat \<Rightarrow> ('a bus_scheme, bool \<times> error option) prog" where
  "GetConnection addr = (\<lambda>b. case connect_acks b of
      [] \<Rightarrow> (Starved, b)
    | a # as \<Rightarrow> (Ret (a = None, map_option BusError a),
                 b\<lparr>connect_acks := as, trace := trace b @ [EvConnect addr]\<rparr>))"

text \<open>The assignment \<^verbatim>\<open>s.conn = c\<close>.\<close>

definition assign_conn :: "bool \<Rightarrow> ('a bus_scheme, unit) prog" where
  "assign_conn c = (\<lambda>b. (Ret (), b\<lparr>conn := c\<rparr>))"


text \<open>
  The loop of \<^verbatim>\<open>tuneFM\<close>:
  \<^verbatim>\<open>for { status, err := s.getStatus(); if err != nil { return nil };
           if status&0x81 == 0x81 { return nil }; time.Sleep(...) }\<close>
\<close>

function tuneFM_loop :: "('a bus_scheme, error option) prog" where
  "tuneFM_loop b =
    (case getStatus b of
       (Ret (status, Some e), b') \<Rightarrow> (Ret None, b')
     | (Ret (status, None), b') \<Rightarrow>
         if status AND 0x81 = 0x81 then (Ret None, b') else tuneFM_loop b'
     | (Panic msg, b') \<Rightarrow> (Panic msg, b')
     | (Starved, b') \<Rightarrow> (Starved, b'))"
  by pat_completeness auto
termination
  by (relation "measure (\<lambda>b. length (write_acks b))")
     (auto simp: getStatus_def tryE_def bindP_def conn_WriteByte_def conn_ReadByte_def ret_def
           split: list.splits if_splits option.splits sum.splits)

text \<open>
  The loop of \<^verbatim>\<open>readTuneMeasure\<close>:
  \<^verbatim>\<open>for { status, err := s.getStatus(); if err != nil { return err };
           if status == 0x81 { break }; time.Sleep(...) }; return nil\<close>
\<close>

function readTuneMeasure_loop :: "('a bus_scheme, error option) prog" where
  "readTuneMeasure_loop b =
    (case getStatus b of
       (Ret (status, Some e), b') \<Rightarrow> (Ret (Some e), b')
     | (Ret (status, None), b') \<Rightarrow>
         if status = 0x81 then (Ret None, b') else readTuneMeasure_loop b'
     | (Panic msg, b') \<Rightarrow> (Panic msg, b')
     | (Starved, b') \<Rightarrow> (Starved, b'))"
  by pat_completeness auto
termination
  by (relation "measure (\<lambda>b. length (write_acks b))")
     (auto simp: getStatus_def tryE_def bindP_def conn_WriteByte_def conn_ReadByte_def ret_def
           split: list.splits if_splits option.splits sum.splits)

text \<open>
  The padding loop of \<^verbatim>\<open>SetRDSStation\<close> and \<^verbatim>\<open>SetRDSMessage\<close>:
  \<^verbatim>\<open>for i := len(s) - j*4; i > 0 && i < 4; i++ { name = append(name, ' ') }\<close>
\<close>

function padLoop :: "nat \<Rightarrow> byte list \<Rightarrow> byte list" where
  "padLoop i buf = (if 0 < i \<and> i < 4 then padLoop (i + 1) (buf @ [0x20]) else buf)"
  by pat_completeness auto
termination
  by (relation "measure (\<lambda>(i, buf). 4 - i)") auto


text \<open>
  \<^verbatim>\<open>Validate\<close>, the same in both files up to the name of the program-identifier
  field.  It changes the configuration in place; the configuration as left is returned
  with the error.
\<close>

definition Validate :: "Si4713Config \<Rightarrow> ('a bus_scheme, error option \<times> Si4713Config) prog" where
  "Validate c =
    (if Log c = None then
       panic ''logging function cannot be nil. Use something like log.Printf or an empty function instead''
     else if DebugMode c \<and> DebugLog c = None then
       panic ''cannot use debugging mode without configuring a DebugLog function, e.g. log.Printf''
     else
       let c1 = (if ResetPin c = [] then c\<lparr>ResetPin := ''29''\<rparr> else c) in
       if TransmitFrequency c1 = 0 then
         ret (Some (Errorf ''FM transmission frequency not set'' []), c1)
       else if TransmitFrequency c1 < 8750 \<or> TransmitFrequency c1 > 10800 then
         ret (Some (Errorf ''FM transmission frequency not in 87.50 MHz ... 108 MHz bounds'' []), c1)
       else
         bindP (if AlternateFrequency c1 < 8750 \<or> AlternateFrequency c1 > 10800 then
                  seqP (logf (Log c1)
                          ''FM alternate transmission frequency not in 87.50 MHz ... 108 MHz bounds, defaulting to %d\<newline>''
                          [ArgInt 8750])
                       (ret (c1\<lparr>AlternateFrequency := 8750\<rparr>))
                else ret c1)
        (\<lambda>c2.
         bindP (if TransmitPower c2 < 88 then
                  seqP (logf (Log c2) ''Transmit power %d < 88. Adjusting to minimum of 88.\<newline>''
                          [ArgInt (uint (TransmitPower c2))])
                       (ret (c2\<lparr>TransmitPower := 88\<rparr>))
                else if TransmitPower c2 > 115 then
                  seqP (logf (Log c2) ''Transmit power %d > 115. Adjusting to maximum of 115.\<newline>''
                          [ArgInt (uint (TransmitPower c2))])
                       (ret (c2\<lparr>TransmitPower := 115\<rparr>))
                else ret c2)
        (\<lambda>c3. ret (None, if ProgramID c3 < 1 then c3\<lparr>ProgramID := 0x3104\<rparr> else c3))))"

section \<open>The driver of part_001: a fresh frame per call\<close>

definition cmdPowerUp_p1 :: command where
  "cmdPowerUp_p1 = [CMD_POWER_UP, 0x12, 0x50]"

definition cmdPowerDown_p1 :: command where
  "cmdPowerDown_p1 = [CMD_POWER_DOWN, 0]"


definition cmdTuneFM_p1 :: "byte \<Rightarrow> byte \<Rightarrow> command" where
  "cmdTuneFM_p1 h l = [CMD_TX_TUNE_FREQ, 0, h, l]"

definition cmdReadTuneStatus_p1 :: command where
  "cmdReadTuneStatus_p1 = [CMD_TX_TUNE_STATUS, 0x1]"

definition cmdTuneMeasure_p1 :: "byte \<Rightarrow> byte \<Rightarrow> command" where
  "cmdTuneMeasure_p1 h l = [CMD_TX_TUNE_MEASURE, 0, h, l, 0]"


definition cmdSetProperty_p1 :: command where
  "cmdSetProperty_p1 = [CMD_SET_PROPERTY, 0, 0, 0, 0, 0]"

definition cmdSetRDSStationName_p1 :: "byte \<Rightarrow> byte \<Rightarrow> byte \<Rightarrow> byte \<Rightarrow> byte \<Rightarrow> command" where
  "cmdSetRDSStationName_p1 slotName n1 n2 n3 n4 = [CMD_TX_RDS_PS, slotName, n1, n2, n3, n4]"

definition cmdSetRDSMessage_p1 ::
    "byte \<Rightarrow> byte \<Rightarrow> byte \<Rightarrow> byte \<Rightarrow> byte \<Rightarrow> byte \<Rightarrow> byte \<Rightarrow> byte \<Rightarrow> command" where
  "cmdSetRDSMessage_p1 messageType msgType msgP slot n1 n2 n3 n4 =
     [messageType, msgType, msgP, slot, n1, n2, n3, n4]"




abbreviation (input) debug_p1 :: "Si4713Driver_p1 \<Rightarrow> string \<Rightarrow> arg list \<Rightarrow> ('a bus_scheme, unit) prog" where
  "debug_p1 s fmt args \<equiv> debugf (DebugMode (config s)) (DebugLog (config s)) fmt args"

definition setProperty_p1 :: "Si4713Driver_p1 \<Rightarrow> uint16 \<Rightarrow> uint16 \<Rightarrow> ('a bus_scheme, error option) prog" where
  "setProperty_p1 s property val =
     seqP (debug_p1 s ''Set Prop 0x%x = 0x%x (%d)\<newline>''
             [ArgInt (uint property), ArgInt (uint val), ArgInt (uint val)])
          (sendCommand_p1 s (cmdSetProperty_p1
             [2 := ucast (drop_bit 8 property), 3 := ucast (property AND 0xFF),
              4 := ucast (drop_bit 8 val), 5 := ucast (val AND 0xFF)]))"




definition powerDown_p1 :: "Si4713Driver_p1 \<Rightarrow> ('a bus_scheme, error option) prog" where
  "powerDown_p1 s = sendCommand_p1 s cmdPowerDown_p1"

definition Halt_p1 :: "Si4713Driver_p1 \<Rightarrow> ('a bus_scheme, error option) prog" where
  "Halt_p1 s = powerDown_p1 s"

definition powerUp_p1 :: "Si4713Driver_p1 \<Rightarrow> ('a bus_scheme, error option) prog" where
  "powerUp_p1 s =
     ifOk (sendCommand_p1 s cmdPowerUp_p1)
    (ifOk (setProperty_p1 s PROP_REFCLK_FREQ 32768)
    (ifOk (setProperty_p1 s PROP_TX_PREEMPHASIS 0)
    (ifOk (setProperty_p1 s PROP_TX_ACOMP_ENABLE 0x02)
    (ifOk (setProperty_p1 s PROP_TX_ACOMP_GAIN 10)
          (setProperty_p1 s PROP_TX_ACOMP_ENABLE 0x02)))))"



definition tuneFM_p1 :: "Si4713Driver_p1 \<Rightarrow> uint16 \<Rightarrow> ('a bus_scheme, error option) prog" where
  "tuneFM_p1 s freqKHz =
     (let h = ucast (drop_bit 8 freqKHz); l = ucast (freqKHz AND 0xFF)
      in ifOk (sendCommand_p1 s (cmdTuneFM_p1 h l)) tuneFM_loop)"

definition readTuneMeasure_p1 :: "Si4713Driver_p1 \<Rightarrow> uint16 \<Rightarrow> ('a bus_scheme, error option) prog" where
  "readTuneMeasure_p1 s freq0 =
     (let freq = (if freq0 mod 5 \<noteq> 0 then freq0 - freq0 mod 5 else freq0)
      in seqP (debug_p1 s ''Measuring frequency: %.2f MHz\<newline>'' [ArgHundredths (uint freq)])
        (let h = ucast (drop_bit 8 freq); l = ucast (freq AND 0xFF)
         in ifOk (sendCommand_p1 s (cmdTuneMeasure_p1 h l)) readTuneMeasure_loop))"

definition readTuneStatus_p1 ::
    "Si4713Driver_p1 \<Rightarrow> ('a bus_scheme, (uint16 \<times> byte \<times> byte \<times> byte) \<times> error option) prog" where
  "readTuneStatus_p1 s =
     tryE (sendCommand_p1 s cmdReadTuneStatus_p1) (0, 0, 0, 0)
    (tryV conn_ReadByte (0, 0, 0, 0) (\<lambda>_.
     tryV conn_ReadByte (0, 0, 0, 0) (\<lambda>_.
     tryV conn_ReadByte (0, 0, 0, 0) (\<lambda>val2.
     tryV conn_ReadByte (0, 0, 0, 0) (\<lambda>val3.
     let currFreq = push_bit 8 (ucast val2 :: uint16) OR ucast val3 in
     tryV conn_ReadByte (0, 0, 0, 0) (\<lambda>_.
     tryV conn_ReadByte (0, 0, 0, 0) (\<lambda>currdBuV.
     tryV conn_ReadByte (0, 0, 0, 0) (\<lambda>currAntCap.
     bindP conn_ReadByte (\<lambda>(currNoiseLevel, err).
       ret ((currFreq, currdBuV, currAntCap, currNoiseLevel), err))))))))))"


lemma unat_succ_lt: "(i :: byte) < slots \<Longrightarrow> unat (i + 1) = Suc (unat i)"
proof -
  assume a: "i < slots"
  have "unat slots < 256"
    using unsigned_less [of slots, where 'a = nat] by simp
  with a have "unat i + 1 < 256"
    by (simp add: word_less_nat_alt)
  then show ?thesis
    by (simp add: unat_word_ariths)
qed

lemma slot_measure: "(i :: byte) < slots \<Longrightarrow> unat slots - unat (i + 1) < unat slots - unat i"
  by (simp add: unat_succ_lt word_less_nat_alt)

text \<open>
  The slot loop of \<^verbatim>\<open>SetRDSStation\<close>:
  \<^verbatim>\<open>for i := uint8(0); i < slots; i++ { c := cmdSetRDSStationName(i, name[j], ...); ...; j += 4 }\<close>.
  An index beyond the padded name panics.
\<close>

function SetRDSStation_loop_p1 ::
    "Si4713Driver_p1 \<Rightarrow> byte list \<Rightarrow> byte \<Rightarrow> byte \<Rightarrow> nat \<Rightarrow> ('a bus_scheme, error option) prog" where
  "SetRDSStation_loop_p1 s buf slots i j =
     (if i < slots then
        (if j + 3 < length buf then
           ifOk (sendCommand_p1 s
                   (cmdSetRDSStationName_p1 i (buf ! j) (buf ! (j + 1)) (buf ! (j + 2)) (buf ! (j + 3))))
                (SetRDSStation_loop_p1 s buf slots (i + 1) (j + 4))
         else panic ''index out of range'')
      else ret None)"
  by pat_completeness auto
termination
  by (relation "measure (\<lambda>(s, buf, slots, i, j). unat slots - unat i)")
     (simp_all add: slot_measure)



function SetRDSMessage_loop_p1 ::
    "Si4713Driver_p1 \<Rightarrow> byte list \<Rightarrow> byte \<Rightarrow> byte \<Rightarrow> nat \<Rightarrow> ('a bus_scheme, error option) prog" where
  "SetRDSMessage_loop_p1 s msg slots i j =
     (if i < slots then
        (let msgType = (if i = 0 then 0x06 else 0x04) in
         if j + 3 < length msg then
           ifOk (sendCommand_p1 s
                   (cmdSetRDSMessage_p1 CMD_TX_RDS_BUFF msgType 0x20 i
                      (msg ! j) (msg ! (j + 1)) (msg ! (j + 2)) (msg ! (j + 3))))
                (SetRDSMessage_loop_p1 s msg slots (i + 1) (j + 4))
         else panic ''index out of range'')
      else ret None)"
  by pat_completeness auto
termination
  by (relation "measure (\<lambda>(s, msg, slots, i, j). unat slots - unat i)")
     (simp_all add: slot_measure)




text \<open>
  The loop of \<^verbatim>\<open>scanFrequencies\<close>:
  \<^verbatim>\<open>for f := uint16(7600); f < 10800; f += 10 { ... }\<close>
\<close>

function scanFrequencies_loop_p1 :: "Si4713Driver_p1 \<Rightarrow> uint16 \<Rightarrow> ('a bus_scheme, error option) prog" where
  "scanFrequencies_loop_p1 s f =
     (if f < 10800 then
        ifOk (readTuneMeasure_p1 s f)
       (bindP (readTuneStatus_p1 s) (\<lambda>((_, _, _, currNoiseLevel), err).
          case err of
            Some e \<Rightarrow> ret (Some e)
          | None \<Rightarrow>
              seqP (debug_p1 s ''Noise level on %.2f MHz is %d\<newline>''
                      [ArgHundredths (uint f), ArgInt (uint currNoiseLevel)])
                   (scanFrequencies_loop_p1 s (f + 10))))
      else ret None)"
  by pat_completeness auto
termination
  by (relation "measure (\<lambda>(s, f). 10800 - unat f)")
     (auto simp: word_less_nat_alt unat_word_ariths)

definition scanFrequencies_p1 :: "Si4713Driver_p1 \<Rightarrow> ('a bus_scheme, error option) prog" where
  "scanFrequencies_p1 s = scanFrequencies_loop_p1 s 7600"










section \<open>The driver of radio.go: templates patched in place\<close>

abbreviation (input) debug :: "Si4713Driver \<Rightarrow> string \<Rightarrow> arg list \<Rightarrow> (world, unit) prog" where
  "debug s fmt args \<equiv> debugf (debugMode s) (debugLog s) fmt args"

text \<open>\<^verbatim>\<open>t[i] = buf[j]\<close>: the read panics first when \<open>j\<close> is out of range.\<close>

definition assignIdx :: "template \<Rightarrow> nat \<Rightarrow> byte list \<Rightarrow> nat \<Rightarrow> (world, unit) prog" where
  "assignIdx t i buf j =
     (if j < length buf then assign t i (buf ! j) else panic ''index out of range'')"

definition setProperty :: "Si4713Driver \<Rightarrow> uint16 \<Rightarrow> uint16 \<Rightarrow> (world, error option) prog" where
  "setProperty s property val =
     seqP (debug s ''Set Prop 0x%x = 0x%x (%d)\<newline>''
             [ArgInt (uint property), ArgInt (uint val), ArgInt (uint val)])
    (seqP (assign CmdSetProperty 2 (ucast (drop_bit 8 property)))
    (seqP (assign CmdSetProperty 3 (ucast (property AND 0xFF)))
    (seqP (assign CmdSetProperty 4 (ucast (drop_bit 8 val)))
    (seqP (assign CmdSetProperty 5 (ucast (val AND 0xFF)))
          (sendT s CmdSetProperty)))))"




definition powerDown :: "Si4713Driver \<Rightarrow> (world, error option) prog" where
  "powerDown s = sendT s CmdPowerDown"

definition Halt :: "Si4713Driver \<Rightarrow> (world, error option) prog" where
  "Halt s = powerDown s"

definition powerUp :: "Si4713Driver \<Rightarrow> (world, error option) prog" where
  "powerUp s =
     ifOk (sendT s CmdPowerUp)
    (ifOk (setProperty s PROP_REFCLK_FREQ 32768)
    (ifOk (setProperty s PROP_TX_PREEMPHASIS 0)
    (ifOk (setProperty s PROP_TX_ACOMP_ENABLE 0x02)
    (ifOk (setProperty s PROP_TX_ACOMP_GAIN 10)
          (setProperty s PROP_TX_ACOMP_ENABLE 0x02)))))"



definition tuneFM :: "Si4713Driver \<Rightarrow> uint16 \<Rightarrow> (world, error option) prog" where
  "tuneFM s freqKHz =
     seqP (assign CmdTuneFM 2 (ucast (drop_bit 8 freqKHz)))
    (seqP (assign CmdTuneFM 3 (ucast (freqKHz AND 0xFF)))
    (ifOk (sendT s CmdTuneFM) tuneFM_loop))"

definition readTuneMeasure :: "Si4713Driver \<Rightarrow> uint16 \<Rightarrow> (world, error option) prog" where
  "readTuneMeasure s freq0 =
     (let freq = (if freq0 mod 5 \<noteq> 0 then freq0 - freq0 mod 5 else freq0)
      in seqP (debug s ''Measuring frequency: %.2f MHz\<newline>'' [ArgHundredths (uint freq)])
        (seqP (assign CmdTuneMeasure 2 (ucast (drop_bit 8 freq)))
        (seqP (assign CmdTuneMeasure 3 (ucast (freq AND 0xFF)))
        (ifOk (sendT s CmdTuneMeasure) readTuneMeasure_loop))))"

definition readTuneStatus ::
    "Si4713Driver \<Rightarrow> (world, (uint16 \<times> byte \<times> byte \<times> byte) \<times> error option) prog" where
  "readTuneStatus s =
     tryE (sendT s CmdReadTuneStatus) (0, 0, 0, 0)
    (tryV conn_ReadByte (0, 0, 0, 0) (\<lambda>_.
     tryV conn_ReadByte (0, 0, 0, 0) (\<lambda>_.
     tryV conn_ReadByte (0, 0, 0, 0) (\<lambda>val2.
     tryV conn_ReadByte (0, 0, 0, 0) (\<lambda>val3.
     let currFreq = push_bit 8 (ucast val2 :: uint16) OR ucast val3 in
     tryV conn_ReadByte (0, 0, 0, 0) (\<lambda>_.
     tryV conn_ReadByte (0, 0, 0, 0) (\<lambda>currdBuV.
     tryV conn_ReadByte (0, 0, 0, 0) (\<lambda>currAntCap.
     bindP conn_ReadByte (\<lambda>(currNoiseLevel, err).
       ret ((currFreq, currdBuV, currAntCap, currNoiseLevel), err))))))))))"


function SetRDSStation_loop ::
    "Si4713Driver \<Rightarrow> byte list \<Rightarrow> byte \<Rightarrow> byte \<Rightarrow> nat \<Rightarrow> (world, error option) prog" where
  "SetRDSStation_loop s buf slots i j =
     (if i < slots then
        seqP (assign CmdSetRDSStationName 1 i)
       (seqP (assignIdx CmdSetRDSStationName 2 buf j)
       (seqP (assignIdx CmdSetRDSStationName 3 buf (j + 1))
       (seqP (assignIdx CmdSetRDSStationName 4 buf (j + 2))
       (seqP (assignIdx CmdSetRDSStationName 5 buf (j + 3))
       (ifOk (sendT s CmdSetRDSStationName)
             (SetRDSStation_loop s buf slots (i + 1) (j + 4)))))))
      else ret None)"
  by pat_completeness auto
termination
  by (relation "measure (\<lambda>(s, buf, slots, i, j). unat slots - unat i)")
     (simp_all add: slot_measure)



function SetRDSMessage_loop ::
    "Si4713Driver \<Rightarrow> byte list \<Rightarrow> byte \<Rightarrow> byte \<Rightarrow> nat \<Rightarrow> (world, error option) prog" where
  "SetRDSMessage_loop s msg slots i j =
     (if i < slots then
        seqP (assign CmdSetRDSMessage 0 CMD_TX_RDS_BUFF)
       (seqP (assign CmdSetRDSMessage 1 (if i = 0 then 0x06 else 0x04))
       (seqP (assign CmdSetRDSMessage 2 0x20)
       (seqP (assign CmdSetRDSMessage 3 i)
       (seqP (assignIdx CmdSetRDSMessage 4 msg j)
       (seqP (assignIdx CmdSetRDSMessage 5 msg (j + 1))
       (seqP (assignIdx CmdSetRDSMessage 6 msg (j + 2))
       (seqP (assignIdx CmdSetRDSMessage 7 msg (j + 3))
       (ifOk (sendT s CmdSetRDSMessage)
             (SetRDSMessage_loop s msg slots (i + 1) (j + 4))))))))))
      else ret None)"
  by pat_completeness auto
termination
  by (relation "measure (\<lambda>(s, msg, slots, i, j). unat slots - unat i)")
     (simp_all add: slot_measure)




function scanFrequencies_loop :: "Si4713Driver \<Rightarrow> uint16 \<Rightarrow> (world, error option) prog" where
  "scanFrequencies_loop s f =
     (if f < 10800 then
        ifOk (readTuneMeasure s f)
       (bindP (readTuneStatus s) (\<lambda>((_, _, _, currNoiseLevel), err).
          case err of
            Some e \<Rightarrow> ret (Some e)
          | None \<Rightarrow>
              seqP (debug s ''Noise level on %.2f MHz is %d\<newline>''
                      [ArgHundredths (uint f), ArgInt (uint currNoiseLevel)])
                   (scanFrequencies_loop s (f + 10))))
      else ret None)"
  by pat_completeness auto
termination
  by (relation "measure (\<lambda>(s, f). 10800 - unat f)")
     (auto simp: word_less_nat_alt unat_word_ariths)

definition scanFrequencies :: "Si4713Driver \<Rightarrow> (world, error option) prog" where
  "scanFrequencies s = scanFrequencies_loop s 7600"










section \<open>Sample values\<close>

text \<open>
  The configuration of the repository's \<^verbatim>\<open>main\<close>, the two drivers that
  \<^verbatim>\<open>NewSi4713Driver\<close> makes of it, and a world with the templates as initialised, a
  connection held and an empty script.
\<close>

definition demo_config :: Si4713Config where
  "demo_config = \<lparr>TransmitFrequency = 9550, AlternateFrequency = 0, TransmitPower = 115,
     ResetPin = [], DebugMode = False, WithFrequencyScan = False,
     StopAfterFrequencyScan = False, HasRDS = True, ProgramID = 0x3104,
     StationName = ''Test'', RdsMessage = ''Hello'',
     DebugLog = None, Log = Some (Sink 0)\<rparr>"

definition demo_driver :: Si4713Driver where
  "demo_driver = \<lparr>resetPin = ''29'', i2cAddr = 0x63, debugMode = False, debugLog = None,
     log = Some (Sink 0), programID = 0x3104, name = ''Si4713Driver'', transmitPower = 115,
     transmitFrequency = 9550, alternateFrequency = 8750, stopAfterFrequencyScan = False,
     withFrequencyScan = False, hasRDS = True, stationName = ''Test'', rdsMessage = ''Hello''\<rparr>"

definition demo_driver_p1 :: Si4713Driver_p1 where
  "demo_driver_p1 = \<lparr>name_p1 = ''Si4713Driver'', i2cAddr_p1 = 0x63,
     config = demo_config\<lparr>AlternateFrequency := 8750, ResetPin := ''29''\<rparr>\<rparr>"

definition world0 :: world where
  "world0 = \<lparr>conn = True, digitalWriter = True, connect_acks = [], pin_acks = [], write_acks = [],
     byte_reads = [], buf_reads = [], trace = [], logged = [], tmpl = templates0\<rparr>"

text \<open>What the handshake loop logs for the status bytes \<open>xs\<close>.\<close>

definition status_log :: "bool \<Rightarrow> sink option \<Rightarrow> byte list \<Rightarrow> (sink \<times> string \<times> arg list) list" where
  "status_log dm dl xs = (if dm then map (\<lambda>x. (the dl, ''status: %x (%d)\<newline>'', [ArgInt (uint x), ArgInt (uint x)])) xs else [])"

section \<open>Facts about the combinators\<close>

declare waitCTS.simps [simp del] tuneFM_loop.simps [simp del] readTuneMeasure_loop.simps [simp del]
  padLoop.simps [simp del]
  SetRDSStation_loop.simps [simp del] SetRDSStation_loop_p1.simps [simp del]
  SetRDSMessage_loop.simps [simp del] SetRDSMessage_loop_p1.simps [simp del]
  scanFrequencies_loop.simps [simp del] scanFrequencies_loop_p1.simps [simp del]

lemma ret_apply [simp]: "ret x s = (Ret x, s)"
  by (simp add: ret_def)

lemma panic_apply [simp]: "panic msg s = (Panic msg, s)"
  by (simp add: panic_def)

lemma bindP_apply:
  "bindP m f s = (case m s of (Ret a, s') \<Rightarrow> f a s' | (Panic msg, s') \<Rightarrow> (Panic msg, s')
                   | (Starved, s') \<Rightarrow> (Starved, s'))"
  by (simp add: bindP_def)

lemma bindP_Ret [simp]: "m s = (Ret a, s') \<Longrightarrow> bindP m f s = f a s'"
  by (simp add: bindP_def)

lemma bindP_Panic [simp]: "m s = (Panic msg, s') \<Longrightarrow> bindP m f s = (Panic msg, s')"
  by (simp add: bindP_def)

lemma bindP_Starved [simp]: "m s = (Starved, s') \<Longrightarrow> bindP m f s = (Starved, s')"
  by (simp add: bindP_def)

lemma seqP_Ret [simp]: "m s = (Ret a, s') \<Longrightarrow> seqP m k s = k s'"
  by (simp add: seqP_def)

lemma ifOk_None [simp]: "m s = (Ret None, s') \<Longrightarrow> ifOk m k s = k s'"
  by (simp add: ifOk_def)

lemma ifOk_Some [simp]: "m s = (Ret (Some e), s') \<Longrightarrow> ifOk m k s = (Ret (Some e), s')"
  by (simp add: ifOk_def)

lemma debugf_off [simp]: "debugf False dl fmt args b = (Ret (), b)"
  by (simp add: debugf_def)

lemma debugf_on [simp]:
  "debugf True (Some k) fmt args b = (Ret (), b\<lparr>logged := logged b @ [(k, fmt, args)]\<rparr>)"
  by (simp add: debugf_def logf_def)

lemma debugf_ok:
  "dm \<longrightarrow> dl \<noteq> None \<Longrightarrow>
   debugf dm dl fmt args b = (Ret (), b\<lparr>logged := logged b @ (if dm then [(the dl, fmt, args)] else [])\<rparr>)"
  by (cases dm; cases dl) auto

lemma conn_Write_ack [simp]:
  "conn b \<Longrightarrow> write_acks b = a # as \<Longrightarrow>
   conn_Write cmd b = (Ret (map_option BusError a), b\<lparr>write_acks := as, trace := trace b @ [EvWrite cmd]\<rparr>)"
  by (simp add: conn_Write_def)

lemma status_log_Cons: "status_log dm dl (x # xs) = status_log dm dl [x] @ status_log dm dl xs"
  by (simp add: status_log_def)

lemma waitCTS_step:
  assumes "dm \<longrightarrow> dl \<noteq> None" "st AND 0x80 = 0" "byte_reads b = Inr a # rs" "conn b"
  shows "waitCTS dm dl st b = waitCTS dm dl a
     (b\<lparr>byte_reads := rs, trace := trace b @ [EvReadByte],
        logged := logged b @ status_log dm dl [a]\<rparr>)"
  using assms
  by (subst waitCTS.simps) (auto simp: conn_ReadByte_def debugf_def logf_def ret_def status_log_def)

lemma waitCTS_done: "st AND 0x80 \<noteq> 0 \<Longrightarrow> waitCTS dm dl st b = (Ret None, b)"
  by (subst waitCTS.simps) simp

lemma waitCTS_run:
  assumes "dm \<longrightarrow> dl \<noteq> None" "\<forall>x\<in>set pre. x AND 0x80 = 0" "r AND 0x80 \<noteq> 0" "st AND 0x80 = 0"
    "byte_reads b = map Inr pre @ Inr r # rest" "conn b"
  shows "waitCTS dm dl st b = (Ret None,
     b\<lparr>byte_reads := rest,
       trace := trace b @ replicate (Suc (length pre)) EvReadByte,
       logged := logged b @ status_log dm dl (pre @ [r])\<rparr>)"
  using assms
proof (induction pre arbitrary: st b)
  case Nil
  then show ?case
    by (simp add: waitCTS_step waitCTS_done)
next
  case (Cons a pre)
  from Cons.prems have rd: "byte_reads b = Inr a # (map Inr pre @ Inr r # rest)" by simp
  let ?b1 = "b\<lparr>byte_reads := map Inr pre @ Inr r # rest, trace := trace b @ [EvReadByte],
        logged := logged b @ status_log dm dl [a]\<rparr>"
  have "waitCTS dm dl st b = waitCTS dm dl a ?b1"
    using Cons.prems(1,4) rd Cons.prems(6) by (rule waitCTS_step)
  also have "\<dots> = (Ret None, ?b1\<lparr>byte_reads := rest,
       trace := trace ?b1 @ replicate (Suc (length pre)) EvReadByte,
       logged := logged ?b1 @ status_log dm dl (pre @ [r])\<rparr>)"
    using Cons.prems by (intro Cons.IH) auto
  finally show ?case
    by (simp add: status_log_Cons[of dm dl a "pre @ [r]"] replicate_append_same)
qed

lemma all_templates_set: "t \<in> set all_templates"
  by (cases t) (simp_all add: all_templates_def)

lemma tmpl_ok_length: "tmpl_ok T \<Longrightarrow> length (T t) = length (templates0 t)"
  using all_templates_set [of t] by (auto simp: tmpl_ok_def list_all_iff)

lemma tmpl_ok_fixed: "tmpl_ok T \<Longrightarrow> i \<in> set (fixed t) \<Longrightarrow> T t ! i = templates0 t ! i"
  using all_templates_set [of t] by (auto simp: tmpl_ok_def list_all_iff)

lemma tmpl_ok_templates0: "tmpl_ok templates0"
  by (simp add: tmpl_ok_def all_templates_def)

lemma tmpl_ok_PowerDown: "tmpl_ok T \<Longrightarrow> T CmdPowerDown = [0x11, 0]"
  using tmpl_ok_length [of T CmdPowerDown] tmpl_ok_fixed [of T 0 CmdPowerDown]
    tmpl_ok_fixed [of T 1 CmdPowerDown]
  by (auto simp: length_Suc_conv)


section \<open>The two drivers do the same\<close>

text \<open>
  \<open>bus_of\<close> forgets the template store of a world.  \<open>sim A B\<close>: from every world
  whose store satisfies the invariant, the program \<open>A\<close> of \<^verbatim>\<open>radio.go\<close> keeps the
  invariant and \<open>B\<close>, run on the bus of that world, gives the same outcome and the same
  bus.
\<close>

definition bus_of :: "world \<Rightarrow> bus" where
  "bus_of w = \<lparr>conn = conn w, digitalWriter = digitalWriter w, connect_acks = connect_acks w,
     pin_acks = pin_acks w, write_acks = write_acks w, byte_reads = byte_reads w,
     buf_reads = buf_reads w, trace = trace w, logged = logged w\<rparr>"

definition sim :: "(world, 'a) prog \<Rightarrow> (bus, 'a) prog \<Rightarrow> bool" where
  "sim A B = (\<forall>w. tmpl_ok (tmpl w) \<longrightarrow>
     tmpl_ok (tmpl (snd (A w))) \<and> B (bus_of w) = (fst (A w), bus_of (snd (A w))))"

definition same_driver :: "Si4713Driver \<Rightarrow> Si4713Driver_p1 \<Rightarrow> bool" where
  "same_driver s s1 =
    (resetPin s = ResetPin (config s1) \<and> i2cAddr s = i2cAddr_p1 s1 \<and>
     debugMode s = DebugMode (config s1) \<and> debugLog s = DebugLog (config s1) \<and>
     log s = Log (config s1) \<and> programID s = ProgramID (config s1) \<and>
     name s = name_p1 s1 \<and> transmitPower s = TransmitPower (config s1) \<and>
     transmitFrequency s = TransmitFrequency (config s1) \<and>
     alternateFrequency s = AlternateFrequency (config s1) \<and>
     stopAfterFrequencyScan s = StopAfterFrequencyScan (config s1) \<and>
     withFrequencyScan s = WithFrequencyScan (config s1) \<and>
     hasRDS s = HasRDS (config s1) \<and> stationName s = StationName (config s1) \<and>
     rdsMessage s = RdsMessage (config s1))"

lemma bus_of_simps [simp]:
  "conn (bus_of w) = conn w"
  "digitalWriter (bus_of w) = digitalWriter w"
  "connect_acks (bus_of w) = connect_acks w"
  "pin_acks (bus_of w) = pin_acks w"
  "write_acks (bus_of w) = write_acks w"
  "byte_reads (bus_of w) = byte_reads w"
  "buf_reads (bus_of w) = buf_reads w"
  "trace (bus_of w) = trace w"
  "logged (bus_of w) = logged w"
  by (simp_all add: bus_of_def)

lemma bus_of_update [simp]:
  "bus_of (w\<lparr>tmpl := T\<rparr>) = bus_of w"
  "bus_of (w\<lparr>conn := c\<rparr>) = (bus_of w)\<lparr>conn := c\<rparr>"
  "bus_of (w\<lparr>connect_acks := ca\<rparr>) = (bus_of w)\<lparr>connect_acks := ca\<rparr>"
  "bus_of (w\<lparr>pin_acks := pa\<rparr>) = (bus_of w)\<lparr>pin_acks := pa\<rparr>"
  "bus_of (w\<lparr>write_acks := wa\<rparr>) = (bus_of w)\<lparr>write_acks := wa\<rparr>"
  "bus_of (w\<lparr>byte_reads := br\<rparr>) = (bus_of w)\<lparr>byte_reads := br\<rparr>"
  "bus_of (w\<lparr>buf_reads := bf\<rparr>) = (bus_of w)\<lparr>buf_reads := bf\<rparr>"
  "bus_of (w\<lparr>trace := tr\<rparr>) = (bus_of w)\<lparr>trace := tr\<rparr>"
  "bus_of (w\<lparr>logged := lg\<rparr>) = (bus_of w)\<lparr>logged := lg\<rparr>"
  by (simp_all add: bus_of_def)

lemma simI:
  "(\<And>w. tmpl_ok (tmpl w) \<Longrightarrow> tmpl_ok (tmpl (snd (A w))) \<and> B (bus_of w) = (fst (A w), bus_of (snd (A w))))
   \<Longrightarrow> sim A B"
  by (simp add: sim_def)

lemma simD:
  "sim A B \<Longrightarrow> tmpl_ok (tmpl w) \<Longrightarrow> A w = (r, w') \<Longrightarrow> tmpl_ok (tmpl w') \<and> B (bus_of w) = (r, bus_of w')"
  by (auto simp: sim_def)

lemma sim_ret: "sim (ret x) (ret x)"
  by (simp add: sim_def)

lemma sim_panic: "sim (panic msg) (panic msg)"
  by (simp add: sim_def)

lemma sim_Pair [simp]: "sim (Pair r) (Pair r)"
  by (simp add: sim_def)

lemma sim_bindP:
  assumes "sim A B" and "\<And>x. sim (f x) (g x)"
  shows "sim (bindP A f) (bindP B g)"
proof (rule simI)
  fix w :: world
  assume ok: "tmpl_ok (tmpl w)"
  obtain r w' where A: "A w = (r, w')" by (cases "A w")
  from simD [OF assms(1) ok A] have ok': "tmpl_ok (tmpl w')" and B: "B (bus_of w) = (r, bus_of w')"
    by simp_all
  show "tmpl_ok (tmpl (snd (bindP A f w))) \<and>
        bindP B g (bus_of w) = (fst (bindP A f w), bus_of (snd (bindP A f w)))"
  proof (cases r)
    case (Ret x)
    obtain r2 w2 where F: "f x w' = (r2, w2)" by (cases "f x w'")
    from simD [OF assms(2) ok' F] show ?thesis
      using A B Ret F by (simp add: bindP_def)
  next
    case (Panic msg)
    then show ?thesis using A B ok' by (simp add: bindP_def)
  next
    case Starved
    then show ?thesis using A B ok' by (simp add: bindP_def)
  qed
qed

lemma sim_seqP: "sim A B \<Longrightarrow> sim k k' \<Longrightarrow> sim (seqP A k) (seqP B k')"
  unfolding seqP_def by (rule sim_bindP)

lemma sim_ifOk: "sim A B \<Longrightarrow> sim k k' \<Longrightarrow> sim (ifOk A k) (ifOk B k')"
  unfolding ifOk_def by (rule sim_bindP) (auto simp: sim_ret split: option.splits)

lemma sim_tryE: "sim A B \<Longrightarrow> sim k k' \<Longrightarrow> sim (tryE A z k) (tryE B z k')"
  unfolding tryE_def by (rule sim_bindP) (auto simp: sim_ret split: option.splits)

lemma sim_tryV: "sim A B \<Longrightarrow> (\<And>v. sim (k v) (k' v)) \<Longrightarrow> sim (tryV A z k) (tryV B z k')"
  unfolding tryV_def by (rule sim_bindP) (auto simp: sim_ret split: option.splits prod.splits)

lemma sim_if: "sim A B \<Longrightarrow> sim A' B' \<Longrightarrow> sim (if c then A else A') (if c then B else B')"
  by simp

lemma sim_conn_Write: "sim (conn_Write cmd) (conn_Write cmd)"
  by (simp add: sim_def conn_Write_def split: list.splits)

lemma sim_conn_WriteByte: "sim (conn_WriteByte v) (conn_WriteByte v)"
  by (simp add: sim_def conn_WriteByte_def split: list.splits)

lemma sim_conn_ReadByte: "sim conn_ReadByte conn_ReadByte"
  by (simp add: sim_def conn_ReadByte_def split: list.splits)

lemma sim_conn_Read: "sim (conn_Read sz) (conn_Read sz)"
  by (simp add: sim_def conn_Read_def split: list.splits)

lemma sim_logf: "sim (logf k fmt args) (logf k fmt args)"
  by (simp add: sim_def logf_def split: option.splits)

lemma sim_debugf: "sim (debugf dm dl fmt args) (debugf dm dl fmt args)"
  by (simp add: debugf_def sim_logf sim_ret)

lemma sim_DigitalWrite: "sim (DigitalWrite pin level) (DigitalWrite pin level)"
  by (simp add: sim_def DigitalWrite_def split: list.splits)

lemma sim_GetConnection: "sim (GetConnection addr) (GetConnection addr)"
  by (simp add: sim_def GetConnection_def split: list.splits)

lemma sim_assign_conn: "sim (assign_conn c) (assign_conn c)"
  by (simp add: sim_def assign_conn_def)

lemmas sim_rules = sim_ret sim_panic sim_bindP sim_seqP sim_ifOk sim_tryE sim_tryV sim_if
  sim_conn_Write sim_conn_WriteByte sim_conn_ReadByte sim_conn_Read sim_logf sim_debugf
  sim_DigitalWrite sim_GetConnection

lemma sim_getStatus: "sim getStatus getStatus"
  unfolding getStatus_def by (intro sim_rules)




lemma sim_Validate: "sim (Validate c) (Validate c)"
  unfolding Validate_def Let_def
  by (intro sim_rules) 


lemma sim_waitCTS: "sim (waitCTS dm dl st) (waitCTS dm dl st)"
proof (rule simI)
  fix w :: world
  assume "tmpl_ok (tmpl w)"
  then show "tmpl_ok (tmpl (snd (waitCTS dm dl st w))) \<and>
        waitCTS dm dl st (bus_of w) = (fst (waitCTS dm dl st w), bus_of (snd (waitCTS dm dl st w)))"
  proof (induction dm dl st w rule: waitCTS.induct)
    case (1 dm dl status b)
    show ?case
    proof (cases "status AND STATUS_CTS = 0")
      case False
      then show ?thesis using "1.prems" by (simp add: waitCTS.simps)
    next
      case True
      obtain r b' where R: "conn_ReadByte b = (r, b')" by (cases "conn_ReadByte b")
      from simD [OF sim_conn_ReadByte "1.prems" R]
      have ok': "tmpl_ok (tmpl b')" and R': "conn_ReadByte (bus_of b) = (r, bus_of b')" by simp_all
      show ?thesis
      proof (cases r)
        case (Ret x)
        obtain st e where x: "x = (st, e)" by (cases x)
        show ?thesis
        proof (cases e)
          case (Some err)
          then show ?thesis
            using True R R' Ret x ok'
            by (simp add: waitCTS.simps [of dm dl status b] waitCTS.simps [of dm dl status "bus_of b"])
        next
          case None
          obtain r2 b2 where D: "debugf dm dl ''status: %x (%d)\<newline>'' [ArgInt (uint st), ArgInt (uint st)] b' = (r2, b2)"
            by (cases "debugf dm dl ''status: %x (%d)\<newline>'' [ArgInt (uint st), ArgInt (uint st)] b'")
          from simD [OF sim_debugf ok' D]
          have ok2: "tmpl_ok (tmpl b2)"
            and D': "debugf dm dl ''status: %x (%d)\<newline>'' [ArgInt (uint st), ArgInt (uint st)] (bus_of b') = (r2, bus_of b2)"
            by simp_all
          show ?thesis
          proof (cases r2)
            case (Ret u)
            have R1: "(Ret (st, None), b') = conn_ReadByte b"
              using R \<open>r = Ret x\<close> x None by simp
            have D1: "(Ret u, b2) = debugf dm dl ''status: %x (%d)\<newline>'' [ArgInt (uint st), ArgInt (uint st)] b'"
              using D Ret by simp
            have "tmpl_ok (tmpl (snd (waitCTS dm dl st b2))) \<and>
               waitCTS dm dl st (bus_of b2) = (fst (waitCTS dm dl st b2), bus_of (snd (waitCTS dm dl st b2)))"
              by (rule "1.IH" [OF True R1 refl refl refl D1 refl ok2])
            then show ?thesis
              using True R R' \<open>r = Ret x\<close> x None D D' Ret
              by (simp add: waitCTS.simps [of dm dl status b] waitCTS.simps [of dm dl status "bus_of b"])
          next
            case (Panic msg)
            then show ?thesis
              using True R R' \<open>r = Ret x\<close> x None D D' ok2
              by (simp add: waitCTS.simps [of dm dl status b] waitCTS.simps [of dm dl status "bus_of b"])
          next
            case Starved
            then show ?thesis
              using True R R' \<open>r = Ret x\<close> x None D D' ok2
              by (simp add: waitCTS.simps [of dm dl status b] waitCTS.simps [of dm dl status "bus_of b"])
          qed
        qed
      next
        case (Panic msg)
        then show ?thesis
          using True R R' ok'
          by (simp add: waitCTS.simps [of dm dl status b] waitCTS.simps [of dm dl status "bus_of b"])
      next
        case Starved
        then show ?thesis
          using True R R' ok'
          by (simp add: waitCTS.simps [of dm dl status b] waitCTS.simps [of dm dl status "bus_of b"])
      qed
    qed
  qed
qed



lemma sim_readTuneMeasure_loop: "sim readTuneMeasure_loop readTuneMeasure_loop"
proof (rule simI)
  fix w :: world
  assume "tmpl_ok (tmpl w)"
  then show "tmpl_ok (tmpl (snd (readTuneMeasure_loop w))) \<and>
        readTuneMeasure_loop (bus_of w) = (fst (readTuneMeasure_loop w), bus_of (snd (readTuneMeasure_loop w)))"
  proof (induction w rule: readTuneMeasure_loop.induct)
    case (1 b)
    obtain r b' where R: "getStatus b = (r, b')" by (cases "getStatus b")
    from simD [OF sim_getStatus "1.prems" R]
    have ok': "tmpl_ok (tmpl b')" and R': "getStatus (bus_of b) = (r, bus_of b')" by simp_all
    show ?case
    proof (cases r)
      case (Ret x)
      obtain st e where x: "x = (st, e)" by (cases x)
      show ?thesis
      proof (cases e)
        case (Some err)
        then show ?thesis
          using R R' Ret x ok'
          by (simp add: readTuneMeasure_loop.simps [of b] readTuneMeasure_loop.simps [of "bus_of b"])
      next
        case None
        show ?thesis
        proof (cases "st = 0x81")
          case True
          then show ?thesis
            using R R' Ret x None ok'
            by (simp add: readTuneMeasure_loop.simps [of b] readTuneMeasure_loop.simps [of "bus_of b"])
        next
          case False
          have R1: "(Ret (st, None), b') = getStatus b"
            using R Ret x None by simp
          have "tmpl_ok (tmpl (snd (readTuneMeasure_loop b'))) \<and>
             readTuneMeasure_loop (bus_of b') = (fst (readTuneMeasure_loop b'), bus_of (snd (readTuneMeasure_loop b')))"
            by (rule "1.IH" [OF R1 refl refl refl False ok'])
          then show ?thesis
            using R R' Ret x None False
            by (simp add: readTuneMeasure_loop.simps [of b] readTuneMeasure_loop.simps [of "bus_of b"])
        qed
      qed
    next
      case (Panic msg)
      then show ?thesis
        using R R' ok'
        by (simp add: readTuneMeasure_loop.simps [of b] readTuneMeasure_loop.simps [of "bus_of b"])
    next
      case Starved
      then show ?thesis
        using R R' ok'
        by (simp add: readTuneMeasure_loop.simps [of b] readTuneMeasure_loop.simps [of "bus_of b"])
    qed
  qed
qed

lemma sim_sendCommand:
  assumes "same_driver s s1"
  shows "sim (sendCommand s cmd) (sendCommand_p1 s1 cmd)"
proof -
  have dm: "DebugMode (config s1) = debugMode s" and dl: "DebugLog (config s1) = debugLog s"
    using assms by (simp_all add: same_driver_def)
  have tail: "sim (\<lambda>w. case cmd of
       [] \<Rightarrow> (Panic ''index out of range'', w)
     | c0 # _ \<Rightarrow>
         (case tmpl w CmdPowerDown of
            [] \<Rightarrow> (Panic ''index out of range'', w)
          | p0 # _ \<Rightarrow>
              if c0 = p0 then (Ret None, w)
              else waitCTS (debugMode s) (debugLog s) 0 w))
     (case cmd of
       [] \<Rightarrow> panic ''index out of range''
     | c0 # _ \<Rightarrow>
         if c0 = CMD_POWER_DOWN then ret None
         else waitCTS (debugMode s) (debugLog s) 0)"
  proof (rule simI)
    fix w :: world
    assume ok: "tmpl_ok (tmpl w)"
    note W = simD [OF sim_waitCTS ok, of "debugMode s" "debugLog s" 0]
    show "tmpl_ok (tmpl (snd (case cmd of [] \<Rightarrow> (Panic ''index out of range'', w)
                    | c0 # x \<Rightarrow>
                        case tmpl w CmdPowerDown of [] \<Rightarrow> (Panic ''index out of range'', w)
                        | p0 # x \<Rightarrow>
                            if c0 = p0 then (Ret None, w)
                            else waitCTS (debugMode s) (debugLog s) 0 w))) \<and>
         (case cmd of [] \<Rightarrow> panic ''index out of range''
          | c0 # x \<Rightarrow> if c0 = 17 then ret None else waitCTS (debugMode s) (debugLog s) 0)
          (bus_of w) =
         (fst (case cmd of [] \<Rightarrow> (Panic ''index out of range'', w)
               | c0 # x \<Rightarrow>
                   case tmpl w CmdPowerDown of [] \<Rightarrow> (Panic ''index out of range'', w)
                   | p0 # x \<Rightarrow>
                       if c0 = p0 then (Ret None, w)
                       else waitCTS (debugMode s) (debugLog s) 0 w),
          bus_of
           (snd (case cmd of [] \<Rightarrow> (Panic ''index out of range'', w)
                 | c0 # x \<Rightarrow>
                     case tmpl w CmdPowerDown of [] \<Rightarrow> (Panic ''index out of range'', w)
                     | p0 # x \<Rightarrow>
                         if c0 = p0 then (Ret None, w)
                         else waitCTS (debugMode s) (debugLog s) 0 w)))"
      using ok tmpl_ok_PowerDown [OF ok] W
      by (cases cmd; cases "waitCTS (debugMode s) (debugLog s) 0 w") auto
  qed
  show ?thesis
    unfolding sendCommand_def sendCommand_p1_def dm dl
    by (intro sim_seqP sim_ifOk sim_debugf sim_conn_Write tail)
qed


lemma bus_of_eq_update: "bus_of (w\<lparr>tmpl := T\<rparr>) = bus_of w"
  by simp

lemma sim_after_assign:
  assumes "sim A' B"
    and "\<And>w. tmpl_ok (tmpl w) \<Longrightarrow> \<exists>T'. tmpl_ok T' \<and> A w = A' (w\<lparr>tmpl := T'\<rparr>)"
  shows "sim A B"
proof (rule simI)
  fix w :: world
  assume ok: "tmpl_ok (tmpl w)"
  from assms(2) [OF ok] obtain T' where T': "tmpl_ok T'" and A: "A w = A' (w\<lparr>tmpl := T'\<rparr>)"
    by blast
  obtain r w' where R: "A' (w\<lparr>tmpl := T'\<rparr>) = (r, w')" by (cases "A' (w\<lparr>tmpl := T'\<rparr>)")
  from simD [OF assms(1) _ R] T' show "tmpl_ok (tmpl (snd (A w))) \<and> B (bus_of w) = (fst (A w), bus_of (snd (A w)))"
    by (simp add: A R)
qed

lemma tmpl_ok_upd:
  "tmpl_ok T \<Longrightarrow> length xs = length (templates0 t) \<Longrightarrow>
   (\<forall>i\<in>set (fixed t). xs ! i = templates0 t ! i) \<Longrightarrow> tmpl_ok (T(t := xs))"
  by (auto simp: tmpl_ok_def list_all_iff)

lemma tmpl_same: "w\<lparr>tmpl := tmpl w\<rparr> = w"
  by simp

lemma tmpl_shape:
  assumes "tmpl_ok T"
  shows "T CmdPowerUp = [0x01, 0x12, 0x50]"
    and "T CmdGetRev = [0x10, 0]"
    and "T CmdReadTuneStatus = [0x33, 1]"
    and "T CmdASQStatus = [0x34, 1]"
    and "\<exists>a b. T CmdTuneFM = [0x30, 0, a, b]"
    and "\<exists>a b. T CmdTuneMeasure = [0x32, 0, a, b, 0]"
    and "\<exists>a b. T CmdSetTxPower = [0x31, 0, 0, a, b]"
    and "\<exists>a b c d. T CmdSetProperty = [0x12, 0, a, b, c, d]"
    and "\<exists>a b c d e. T CmdSetRDSStationName = [0x36, a, b, c, d, e]"
    and "\<exists>a b c d e f g h. T CmdSetRDSMessage = [a, b, c, d, e, f, g, h]"
    and "\<exists>a. T CmdSetGPIOCtrl = [0x80, a]"
    and "\<exists>a. T CmdSetGPIO = [0x81, a]"
  using tmpl_ok_length [OF assms, of CmdPowerUp] tmpl_ok_fixed [OF assms, of 0 CmdPowerUp]
    tmpl_ok_fixed [OF assms, of 1 CmdPowerUp] tmpl_ok_fixed [OF assms, of 2 CmdPowerUp]
    tmpl_ok_length [OF assms, of CmdGetRev] tmpl_ok_fixed [OF assms, of 0 CmdGetRev]
    tmpl_ok_fixed [OF assms, of 1 CmdGetRev]
    tmpl_ok_length [OF assms, of CmdReadTuneStatus] tmpl_ok_fixed [OF assms, of 0 CmdReadTuneStatus]
    tmpl_ok_fixed [OF assms, of 1 CmdReadTuneStatus]
    tmpl_ok_length [OF assms, of CmdASQStatus] tmpl_ok_fixed [OF assms, of 0 CmdASQStatus]
    tmpl_ok_fixed [OF assms, of 1 CmdASQStatus]
    tmpl_ok_length [OF assms, of CmdTuneFM] tmpl_ok_fixed [OF assms, of 0 CmdTuneFM]
    tmpl_ok_fixed [OF assms, of 1 CmdTuneFM]
    tmpl_ok_length [OF assms, of CmdTuneMeasure] tmpl_ok_fixed [OF assms, of 0 CmdTuneMeasure]
    tmpl_ok_fixed [OF assms, of 1 CmdTuneMeasure] tmpl_ok_fixed [OF assms, of 4 CmdTuneMeasure]
    tmpl_ok_length [OF assms, of CmdSetTxPower] tmpl_ok_fixed [OF assms, of 0 CmdSetTxPower]
    tmpl_ok_fixed [OF assms, of 1 CmdSetTxPower] tmpl_ok_fixed [OF assms, of 2 CmdSetTxPower]
    tmpl_ok_length [OF assms, of CmdSetProperty] tmpl_ok_fixed [OF assms, of 0 CmdSetProperty]
    tmpl_ok_fixed [OF assms, of 1 CmdSetProperty]
    tmpl_ok_length [OF assms, of CmdSetRDSStationName] tmpl_ok_fixed [OF assms, of 0 CmdSetRDSStationName]
    tmpl_ok_length [OF assms, of CmdSetRDSMessage]
    tmpl_ok_length [OF assms, of CmdSetGPIOCtrl] tmpl_ok_fixed [OF assms, of 0 CmdSetGPIOCtrl]
    tmpl_ok_length [OF assms, of CmdSetGPIO] tmpl_ok_fixed [OF assms, of 0 CmdSetGPIO]
  by (auto simp: length_Suc_conv)

lemma sim_sendT_fixed:
  assumes "same_driver s s1" and "\<And>T. tmpl_ok T \<Longrightarrow> T t = cmd"
  shows "sim (sendT s t) (sendCommand_p1 s1 cmd)"
proof (rule sim_after_assign [OF sim_sendCommand [OF assms(1)]])
  fix w :: world
  assume ok: "tmpl_ok (tmpl w)"
  have "sendT s t w = sendCommand s cmd (w\<lparr>tmpl := tmpl w\<rparr>)"
    using assms(2) [OF ok] by (simp add: sendT_def)
  with ok show "\<exists>T'. tmpl_ok T' \<and> sendT s t w = sendCommand s cmd (w\<lparr>tmpl := T'\<rparr>)"
    by blast
qed



lemma assign_run:
  "i < length (tmpl w t) \<Longrightarrow>
   assign t i v w = (Ret (), w\<lparr>tmpl := (tmpl w)(t := (tmpl w t)[i := v])\<rparr>)"
  by (simp add: assign_def)

lemma seqP_assign:
  "i < length (tmpl w t) \<Longrightarrow>
   seqP (assign t i v) k w = k (w\<lparr>tmpl := (tmpl w)(t := (tmpl w t)[i := v])\<rparr>)"
  by (simp add: seqP_def bindP_def assign_def)





text \<open>The frame of a set-property command.\<close>

definition property_frame :: "uint16 \<Rightarrow> uint16 \<Rightarrow> command" where
  "property_frame property val =
     [CMD_SET_PROPERTY, 0, ucast (drop_bit 8 property), ucast (property AND 0xFF),
      ucast (drop_bit 8 val), ucast (val AND 0xFF)]"

lemma setProperty_p1_frame:
  "setProperty_p1 s1 property val =
     seqP (debug_p1 s1 ''Set Prop 0x%x = 0x%x (%d)\<newline>''
             [ArgInt (uint property), ArgInt (uint val), ArgInt (uint val)])
          (sendCommand_p1 s1 (property_frame property val))"
  by (simp add: setProperty_p1_def cmdSetProperty_p1_def property_frame_def)

lemma sim_setProperty:
  assumes "same_driver s s1"
  shows "sim (setProperty s property val) (setProperty_p1 s1 property val)"
proof -
  have dm: "DebugMode (config s1) = debugMode s" and dl: "DebugLog (config s1) = debugLog s"
    using assms by (simp_all add: same_driver_def)
  let ?A = "seqP (assign CmdSetProperty 2 (ucast (drop_bit 8 property)))
    (seqP (assign CmdSetProperty 3 (ucast (property AND 0xFF)))
    (seqP (assign CmdSetProperty 4 (ucast (drop_bit 8 val)))
    (seqP (assign CmdSetProperty 5 (ucast (val AND 0xFF)))
          (sendT s CmdSetProperty))))"
  have "sim ?A (sendCommand_p1 s1 (property_frame property val))"
  proof (rule sim_after_assign [OF sim_sendCommand [OF assms]])
    fix w :: world
    assume ok: "tmpl_ok (tmpl w)"
    from tmpl_shape(8) [OF ok] obtain a b c d where T: "tmpl w CmdSetProperty = [0x12, 0, a, b, c, d]"
      by blast
    let ?T' = "(tmpl w)(CmdSetProperty := property_frame property val)"
    have "tmpl_ok ?T'"
      using ok by (intro tmpl_ok_upd) (simp_all add: property_frame_def)
    moreover have "?A w = sendCommand s (property_frame property val) (w\<lparr>tmpl := ?T'\<rparr>)"
      by (simp add: seqP_assign T sendT_def property_frame_def)
    ultimately show "\<exists>T'. tmpl_ok T' \<and> ?A w = sendCommand s (property_frame property val) (w\<lparr>tmpl := T'\<rparr>)"
      by blast
  qed
  then show ?thesis
    unfolding setProperty_def setProperty_p1_frame dm dl
    by (intro sim_seqP sim_debugf)
qed


lemma sim_readTuneMeasure:
  assumes "same_driver s s1"
  shows "sim (readTuneMeasure s freq0) (readTuneMeasure_p1 s1 freq0)"
proof -
  have dm: "DebugMode (config s1) = debugMode s" and dl: "DebugLog (config s1) = debugLog s"
    using assms by (simp_all add: same_driver_def)
  define freq where "freq = (if freq0 mod 5 \<noteq> 0 then freq0 - freq0 mod 5 else freq0)"
  let ?cmd = "[0x32, 0, ucast (drop_bit 8 freq), ucast (freq AND 0xFF), 0] :: command"
  let ?A = "seqP (assign CmdTuneMeasure 2 (ucast (drop_bit 8 freq)))
        (seqP (assign CmdTuneMeasure 3 (ucast (freq AND 0xFF)))
        (ifOk (sendT s CmdTuneMeasure) readTuneMeasure_loop))"
  have "sim ?A (ifOk (sendCommand_p1 s1 ?cmd) readTuneMeasure_loop)"
  proof (rule sim_after_assign [OF sim_ifOk [OF sim_sendCommand [OF assms] sim_readTuneMeasure_loop]])
    fix w :: world
    assume ok: "tmpl_ok (tmpl w)"
    from tmpl_shape(6) [OF ok] obtain a b where T: "tmpl w CmdTuneMeasure = [0x32, 0, a, b, 0]"
      by blast
    let ?T' = "(tmpl w)(CmdTuneMeasure := ?cmd)"
    have "tmpl_ok ?T'"
      using ok by (intro tmpl_ok_upd) simp_all
    moreover have "?A w = ifOk (sendCommand s ?cmd) readTuneMeasure_loop (w\<lparr>tmpl := ?T'\<rparr>)"
      by (simp add: seqP_assign T sendT_def ifOk_def bindP_def)
    ultimately show "\<exists>T'. tmpl_ok T' \<and> ?A w = ifOk (sendCommand s ?cmd) readTuneMeasure_loop (w\<lparr>tmpl := T'\<rparr>)"
      by blast
  qed
  then show ?thesis
    unfolding readTuneMeasure_def readTuneMeasure_p1_def cmdTuneMeasure_p1_def Let_def dm dl freq_def
    by (intro sim_seqP sim_debugf)
qed


lemma sim_powerUp:
  assumes "same_driver s s1"
  shows "sim (powerUp s) (powerUp_p1 s1)"
  unfolding powerUp_def powerUp_p1_def cmdPowerUp_p1_def
  by (intro sim_ifOk sim_setProperty [OF assms] sim_sendT_fixed [OF assms])
     (simp add: tmpl_shape)



lemma sim_readTuneStatus:
  assumes "same_driver s s1"
  shows "sim (readTuneStatus s) (readTuneStatus_p1 s1)"
  unfolding readTuneStatus_def readTuneStatus_p1_def cmdReadTuneStatus_p1_def Let_def
  by (intro sim_tryE sim_tryV sim_conn_ReadByte sim_bindP sim_sendT_fixed [OF assms])
     (auto simp: tmpl_shape intro!: sim_rules split: prod.splits)







lemma assignIdx_panic:
  "\<not> j < length buf \<Longrightarrow> seqP (assignIdx t i buf j) k w = (Panic ''index out of range'', w)"
  by (simp add: assignIdx_def seqP_def bindP_def)








lemma sim_scanFrequencies_loop:
  assumes "same_driver s s1"
  shows "sim (scanFrequencies_loop s f) (scanFrequencies_loop_p1 s1 f)"
  using assms
proof (induction s f rule: scanFrequencies_loop.induct)
  case (1 s f)
  note sd = "1.prems"
  have dm: "DebugMode (config s1) = debugMode s" and dl: "DebugLog (config s1) = debugLog s"
    using sd by (simp_all add: same_driver_def)
  show ?case
  proof (cases "f < 10800")
    case False
    then show ?thesis
      by (simp add: scanFrequencies_loop.simps [of s f] scanFrequencies_loop_p1.simps [of s1 f])
  next
    case True
    have IH: "sim (scanFrequencies_loop s (f + 10)) (scanFrequencies_loop_p1 s1 (f + 10))"
      using "1.IH" True sd by blast
    have A: "scanFrequencies_loop s f =
        ifOk (readTuneMeasure s f)
       (bindP (readTuneStatus s) (\<lambda>((_, _, _, currNoiseLevel), err).
          case err of
            Some e \<Rightarrow> ret (Some e)
          | None \<Rightarrow>
              seqP (debug s ''Noise level on %.2f MHz is %d\<newline>''
                      [ArgHundredths (uint f), ArgInt (uint currNoiseLevel)])
                   (scanFrequencies_loop s (f + 10))))"
      using True by (subst scanFrequencies_loop.simps) (simp only: if_True)
    have B: "scanFrequencies_loop_p1 s1 f =
        ifOk (readTuneMeasure_p1 s1 f)
       (bindP (readTuneStatus_p1 s1) (\<lambda>((_, _, _, currNoiseLevel), err).
          case err of
            Some e \<Rightarrow> ret (Some e)
          | None \<Rightarrow>
              seqP (debugf (debugMode s) (debugLog s) ''Noise level on %.2f MHz is %d\<newline>''
                      [ArgHundredths (uint f), ArgInt (uint currNoiseLevel)])
                   (scanFrequencies_loop_p1 s1 (f + 10))))"
      using True by (subst scanFrequencies_loop_p1.simps) (simp only: if_True dm dl)
    show ?thesis
      unfolding A B
      by (intro sim_ifOk sim_bindP sim_readTuneMeasure [OF sd] sim_readTuneStatus [OF sd])
         (auto intro!: sim_ret sim_seqP sim_debugf IH split: prod.splits option.splits)
  qed
qed

lemma sim_scanFrequencies:
  "same_driver s s1 \<Longrightarrow> sim (scanFrequencies s) (scanFrequencies_p1 s1)"
  unfolding scanFrequencies_def scanFrequencies_p1_def by (rule sim_scanFrequencies_loop)







definition validated :: "Si4713Config \<Rightarrow> bool" where
  "validated c =
    (Log c \<noteq> None \<and> (DebugMode c \<longrightarrow> DebugLog c \<noteq> None) \<and> ResetPin c \<noteq> [] \<and>
     8750 \<le> TransmitFrequency c \<and> TransmitFrequency c \<le> 10800 \<and>
     8750 \<le> AlternateFrequency c \<and> AlternateFrequency c \<le> 10800 \<and>
     88 \<le> TransmitPower c \<and> TransmitPower c \<le> 115 \<and> 1 \<le> ProgramID c)"







definition normalized :: "Si4713Config \<Rightarrow> Si4713Config" where
  "normalized c = c\<lparr>
     ResetPin := (if ResetPin c = [] then ''29'' else ResetPin c),
     AlternateFrequency :=
       (if AlternateFrequency c < 8750 \<or> AlternateFrequency c > 10800 then 8750
        else AlternateFrequency c),
     TransmitPower :=
       (if TransmitPower c < 88 then 88 else if TransmitPower c > 115 then 115
        else TransmitPower c),
     ProgramID := (if ProgramID c < 1 then 0x3104 else ProgramID c)\<rparr>"

lemma Validate_accepts:
  assumes "Log c \<noteq> None" "DebugMode c \<longrightarrow> DebugLog c \<noteq> None"
    "8750 \<le> TransmitFrequency c" "TransmitFrequency c \<le> 10800"
  shows "fst (Validate c b) = Ret (None, normalized c)"
proof -
  from assms(1) obtain k where k: "Log c = Some k" by blast
  have nz: "TransmitFrequency c \<noteq> 0" using assms(3) by auto
  have lo: "\<not> TransmitFrequency c < 8750" using assms(3) by (simp add: not_less)
  have hi: "\<not> TransmitFrequency c > 10800" using assms(4) by (simp add: not_less)
  show ?thesis
    using assms(2) k nz lo hi
    by (simp add: Validate_def Let_def logf_def seqP_def bindP_def normalized_def)
qed





lemma normalized_validated: "validated c \<Longrightarrow> normalized c = c"
proof -
  assume v: "validated c"
  then have "\<not> AlternateFrequency c < 8750" "\<not> AlternateFrequency c > 10800"
    "\<not> TransmitPower c < 88" "\<not> TransmitPower c > 115" "ResetPin c \<noteq> []"
    by (simp_all add: validated_def not_less)
  moreover from v have "ProgramID c \<noteq> 0" by (auto simp: validated_def)
  ultimately show ?thesis
    by (simp add: normalized_def)
qed












section \<open>C7: the handshake reads status bytes until clear-to-send\<close>

text \<open>
  Claim C7.  After a frame whose opcode is not power-down has been written, \<^verbatim>\<open>sendCommand\<close>
  reads single status bytes until one has bit \<open>0x80\<close> set and then returns \<^verbatim>\<open>nil\<close>:
  when the transport acknowledges the write and answers the status reads with bytes
  \<open>pre\<close> that all lack the bit, followed by a byte \<open>r\<close> that has it, the call
  returns \<^verbatim>\<open>nil\<close>, its trace is the write followed by exactly \<open>length pre + 1\<close>
  single-byte reads, and the responses after \<open>r\<close> are left unread.  This holds for
  both files.  The witness is the status sequence \<open>[0x00, 0x00, 0x80]\<close>: three reads.
\<close>

theorem sendCommand_handshake:
  assumes "c0 \<noteq> CMD_POWER_DOWN"
    and "DebugMode (config s1) \<longrightarrow> DebugLog (config s1) \<noteq> None"
    and "debugMode s \<longrightarrow> debugLog s \<noteq> None"
    and "tmpl_ok (tmpl w)"
    and "write_acks w = None # acks"
    and "byte_reads w = map Inr pre @ Inr r # rest"
    and "\<forall>x\<in>set pre. x AND STATUS_CTS = 0"
    and "r AND STATUS_CTS \<noteq> 0"
    and "conn w"
  shows "fst (sendCommand s (c0 # cs) w) = Ret None
       \<and> trace (snd (sendCommand s (c0 # cs) w))
           = trace w @ EvWrite (c0 # cs) # replicate (Suc (length pre)) EvReadByte
       \<and> byte_reads (snd (sendCommand s (c0 # cs) w)) = rest
       \<and> fst (sendCommand_p1 s1 (c0 # cs) w) = Ret None
       \<and> trace (snd (sendCommand_p1 s1 (c0 # cs) w))
           = trace w @ EvWrite (c0 # cs) # replicate (Suc (length pre)) EvReadByte
       \<and> byte_reads (snd (sendCommand_p1 s1 (c0 # cs) w)) = rest"
proof -
  let ?w1 = "\<lambda>dm dl. w\<lparr>logged := logged w @ (if dm then [(the dl, ''*** Command: %s\<newline>'', [sliceToString (c0 # cs)])] else []),
      write_acks := acks, trace := trace w @ [EvWrite (c0 # cs)]\<rparr>"
  have A: "sendCommand s (c0 # cs) w = waitCTS (debugMode s) (debugLog s) 0 (?w1 (debugMode s) (debugLog s))"
    using assms(1,3,5,9) tmpl_ok_PowerDown [OF assms(4)]
    by (simp add: sendCommand_def debugf_ok)
  have B: "sendCommand_p1 s1 (c0 # cs) w
      = waitCTS (DebugMode (config s1)) (DebugLog (config s1)) 0 (?w1 (DebugMode (config s1)) (DebugLog (config s1)))"
    using assms(1,2,5,9)
    by (simp add: sendCommand_p1_def debugf_ok)
  show ?thesis
    unfolding A B
    using assms(2,3,6,7,8,9)
    by (simp add: waitCTS_run [where pre = pre and r = r and rest = rest])
qed

theorem sendCommand_handshake_witness:
  "fst (sendCommand demo_driver [0x30, 0, 0x25, 0x4E]
          (world0\<lparr>write_acks := [None], byte_reads := [Inr 0x00, Inr 0x00, Inr 0x80]\<rparr>)) = Ret None
   \<and> trace (snd (sendCommand demo_driver [0x30, 0, 0x25, 0x4E]
          (world0\<lparr>write_acks := [None], byte_reads := [Inr 0x00, Inr 0x00, Inr 0x80]\<rparr>)))
       = [EvWrite [0x30, 0, 0x25, 0x4E], EvReadByte, EvReadByte, EvReadByte]
   \<and> fst (sendCommand_p1 demo_driver_p1 [0x30, 0, 0x25, 0x4E]
          (world0\<lparr>write_acks := [None], byte_reads := [Inr 0x00, Inr 0x00, Inr 0x80]\<rparr>)) = Ret None
   \<and> trace (snd (sendCommand_p1 demo_driver_p1 [0x30, 0, 0x25, 0x4E]
          (world0\<lparr>write_acks := [None], byte_reads := [Inr 0x00, Inr 0x00, Inr 0x80]\<rparr>)))
       = [EvWrite [0x30, 0, 0x25, 0x4E], EvReadByte, EvReadByte, EvReadByte]"
  using sendCommand_handshake [of "0x30" demo_driver_p1 demo_driver
      "world0\<lparr>write_acks := [None], byte_reads := [Inr 0x00, Inr 0x00, Inr 0x80]\<rparr>"
      "[]" "[0, 0]" "0x80" "[]" "[0, 0x25, 0x4E]"]
  by (simp add: demo_driver_def demo_driver_p1_def demo_config_def world0_def tmpl_ok_templates0
        numeral_3_eq_3)

section \<open>C8: power-down is sent without a handshake\<close>

text \<open>
  Claim C8.  For a frame whose opcode is power-down (\<open>0x11\<close>), \<^verbatim>\<open>sendCommand\<close> writes
  the frame and returns what the write returned (\<^verbatim>\<open>nil\<close> when it succeeds) without
  reading any status byte: the trace grows by the write alone and the script of the
  single-byte reads is untouched.  \<^verbatim>\<open>Halt\<close> sends \<open>[0x11, 0]\<close> this way.  This holds
  for both files.
\<close>

theorem powerDown_no_handshake:
  assumes "DebugMode (config s1) \<longrightarrow> DebugLog (config s1) \<noteq> None"
    and "debugMode s \<longrightarrow> debugLog s \<noteq> None"
    and "tmpl_ok (tmpl w)"
    and "write_acks w = a # acks"
    and "conn w"
  shows "fst (sendCommand s (CMD_POWER_DOWN # cs) w) = Ret (map_option BusError a)
       \<and> trace (snd (sendCommand s (CMD_POWER_DOWN # cs) w)) = trace w @ [EvWrite (CMD_POWER_DOWN # cs)]
       \<and> byte_reads (snd (sendCommand s (CMD_POWER_DOWN # cs) w)) = byte_reads w
       \<and> fst (sendCommand_p1 s1 (CMD_POWER_DOWN # cs) w) = Ret (map_option BusError a)
       \<and> trace (snd (sendCommand_p1 s1 (CMD_POWER_DOWN # cs) w)) = trace w @ [EvWrite (CMD_POWER_DOWN # cs)]
       \<and> byte_reads (snd (sendCommand_p1 s1 (CMD_POWER_DOWN # cs) w)) = byte_reads w
       \<and> fst (Halt s w) = Ret (map_option BusError a)
       \<and> trace (snd (Halt s w)) = trace w @ [EvWrite [CMD_POWER_DOWN, 0]]
       \<and> fst (Halt_p1 s1 w) = Ret (map_option BusError a)
       \<and> trace (snd (Halt_p1 s1 w)) = trace w @ [EvWrite [CMD_POWER_DOWN, 0]]"
  using assms tmpl_ok_PowerDown [OF assms(3)]
  by (cases a)
     (simp_all add: sendCommand_def sendCommand_p1_def debugf_ok Halt_def Halt_p1_def
        powerDown_def powerDown_p1_def sendT_def cmdPowerDown_p1_def)

theorem powerDown_no_handshake_witness:
  "fst (Halt demo_driver (world0\<lparr>write_acks := [None]\<rparr>)) = Ret None
   \<and> trace (snd (Halt demo_driver (world0\<lparr>write_acks := [None]\<rparr>))) = [EvWrite [0x11, 0]]
   \<and> fst (Halt_p1 demo_driver_p1 (world0\<lparr>write_acks := [None]\<rparr>)) = Ret None
   \<and> trace (snd (Halt_p1 demo_driver_p1 (world0\<lparr>write_acks := [None]\<rparr>))) = [EvWrite [0x11, 0]]"
  using powerDown_no_handshake [of demo_driver_p1 demo_driver "world0\<lparr>write_acks := [None]\<rparr>" None "[]" "[]"]
  by (simp add: demo_driver_def demo_driver_p1_def demo_config_def world0_def tmpl_ok_templates0)

section \<open>C10: the two drivers are observationally equivalent\<close>









section \<open>C6: validation of a configuration in range\<close>

text \<open>
  Claim C6, as amended.  For every configuration whose primary logging sink is set:
  if the transmit frequency lies in \<open>[8750, 10800]\<close> and the debug sink is set whenever the
  debug mode is on, \<^verbatim>\<open>Validate\<close> returns \<^verbatim>\<open>nil\<close>, does not panic, and leaves the transmit
  frequency unchanged (so an unset debug sink is harmless when the debug mode is off);
  and if the debug mode is on and the debug sink is unset, \<^verbatim>\<open>Validate\<close> panics, whatever
  the frequency, and leaves the state as it was.
\<close>

theorem Validate_in_range:
  assumes "Log c \<noteq> None"
  shows "(8750 \<le> TransmitFrequency c \<and> TransmitFrequency c \<le> 10800
            \<and> (DebugMode c \<longrightarrow> DebugLog c \<noteq> None)
          \<longrightarrow> (\<exists>c'. fst (Validate c b) = Ret (None, c')
                    \<and> TransmitFrequency c' = TransmitFrequency c))
       \<and> (DebugMode c \<and> DebugLog c = None
          \<longrightarrow> Validate c b
                = (Panic ''cannot use debugging mode without configuring a DebugLog function, e.g. log.Printf'',
                   b))"
proof (intro conjI impI)
  assume "8750 \<le> TransmitFrequency c \<and> TransmitFrequency c \<le> 10800
            \<and> (DebugMode c \<longrightarrow> DebugLog c \<noteq> None)"
  then show "\<exists>c'. fst (Validate c b) = Ret (None, c') \<and> TransmitFrequency c' = TransmitFrequency c"
    using Validate_accepts [of c b] assms by (simp add: normalized_def)
next
  assume "DebugMode c \<and> DebugLog c = None"
  then show "Validate c b
      = (Panic ''cannot use debugging mode without configuring a DebugLog function, e.g. log.Printf'', b)"
    using assms by (simp add: Validate_def)
qed

theorem Validate_in_range_witness:
  "(\<exists>c'. fst (Validate demo_config (bus_of world0)) = Ret (None, c') \<and> TransmitFrequency c' = 9550
         \<and> DebugMode demo_config = False \<and> DebugLog demo_config = None)
   \<and> Validate (demo_config\<lparr>DebugMode := True, TransmitFrequency := 9000\<rparr>) (bus_of world0)
       = (Panic ''cannot use debugging mode without configuring a DebugLog function, e.g. log.Printf'',
          bus_of world0)"
  using Validate_in_range [of demo_config "bus_of world0"]
    Validate_in_range [of "demo_config\<lparr>DebugMode := True, TransmitFrequency := 9000\<rparr>" "bus_of world0"]
  by (simp add: demo_config_def)

text \<open>
  The claim as stated fails: with the frequency in range and the primary sink set, an
  unset debug sink makes \<^verbatim>\<open>Validate\<close> panic when the debug mode is on (the explicit
  guard \<^verbatim>\<open>if c.DebugMode && c.DebugLog == nil { panic(...) }\<close>).
\<close>

theorem Validate_debug_sink_counterexample:
  "8750 \<le> TransmitFrequency (demo_config\<lparr>DebugMode := True\<rparr>)
   \<and> TransmitFrequency (demo_config\<lparr>DebugMode := True\<rparr>) \<le> 10800
   \<and> Log (demo_config\<lparr>DebugMode := True\<rparr>) = Some (Sink 0)
   \<and> DebugLog (demo_config\<lparr>DebugMode := True\<rparr>) = None
   \<and> fst (Validate (demo_config\<lparr>DebugMode := True\<rparr>) (bus_of world0))
       = Panic ''cannot use debugging mode without configuring a DebugLog function, e.g. log.Printf''"
  by (simp add: demo_config_def Validate_def)

section \<open>C5: the short-read error\<close>

text \<open>
  Claim C5.  A read of nine bytes to which the transport delivers five fails and returns
  no buffer, but the error is built from \<^verbatim>\<open>size\<close> and \<^verbatim>\<open>len(values)\<close>, and
  \<^verbatim>\<open>values\<close> is \<^verbatim>\<open>make([]byte, size)\<close>: both counts are 9, and the number of bytes
  read (\<^verbatim>\<open>nValues\<close>, here 5) is not in the error.
\<close>

theorem buffRead_short_read_message:
  "fst (buffRead False None 9 (world0\<lparr>buf_reads := [Inr [1, 2, 3, 4, 5]]\<rparr>))
     = Ret (None, Some (Errorf ''failed to read %d bytes from the line, read %d -> %s''
              [ArgInt 9, ArgInt 9, ArgSlice [1, 2, 3, 4, 5, 0, 0, 0, 0]]))"
  by (simp add: buffRead_def conn_Read_def bindP_def world0_def sliceToString_def
        numeral_eq_Suc)

section \<open>C1: a failing status read in the tune loop\<close>

text \<open>
  Claim C1.  When \<^verbatim>\<open>getStatus\<close> fails in the polling loop of \<^verbatim>\<open>tuneFM\<close> (its write
  of the opcode fails, or its read fails), \<^verbatim>\<open>tuneFM\<close> returns \<^verbatim>\<open>nil\<close>
  (\<^verbatim>\<open>if err != nil { return nil }\<close>), in both files.  The same failure in the loop of
  \<^verbatim>\<open>readTuneMeasure\<close> is returned to the caller.
\<close>

theorem tuneFM_swallows_status_failure:
  "fst (tuneFM demo_driver 9550
          (world0\<lparr>write_acks := [None, Some 5], byte_reads := [Inr 0x80]\<rparr>)) = Ret None
   \<and> fst (tuneFM demo_driver 9550
          (world0\<lparr>write_acks := [None, None], byte_reads := [Inr 0x80, Inl 5]\<rparr>)) = Ret None
   \<and> fst (tuneFM_p1 demo_driver_p1 9550
          (world0\<lparr>write_acks := [None, Some 5], byte_reads := [Inr 0x80]\<rparr>)) = Ret None
   \<and> fst (tuneFM_p1 demo_driver_p1 9550
          (world0\<lparr>write_acks := [None, None], byte_reads := [Inr 0x80, Inl 5]\<rparr>)) = Ret None
   \<and> fst (readTuneMeasure demo_driver 9550
          (world0\<lparr>write_acks := [None, Some 5], byte_reads := [Inr 0x80]\<rparr>))
       = Ret (Some (BusError 5))"
  by (simp add: tuneFM_def tuneFM_p1_def readTuneMeasure_def cmdTuneFM_p1_def
        sendT_def sendCommand_def sendCommand_p1_def
        seqP_def bindP_def ifOk_def assign_def tryE_def getStatus_def
        demo_driver_def demo_driver_p1_def demo_config_def world0_def
        waitCTS.simps tuneFM_loop.simps readTuneMeasure_loop.simps
        conn_ReadByte_def conn_WriteByte_def Let_def)

section \<open>The frames a call writes\<close>

lemma round5:
  fixes f :: uint16
  shows "unat (if f mod 5 \<noteq> 0 then f - f mod 5 else f) = 5 * (unat f div 5)"
proof -
  have m: "unat (f mod 5) = unat f mod 5"
    by (simp add: unat_mod)
  have le: "f mod 5 \<le> f"
    by (simp add: word_le_nat_alt m)
  have s: "unat (f - f mod 5) = unat f - unat f mod 5"
    using le by (simp add: unat_sub m)
  have z: "f mod 5 = 0 \<longleftrightarrow> unat f mod 5 = 0"
    using m by (metis unat_eq_0)
  show ?thesis
  proof (cases "f mod 5 = 0")
    case True
    with z have "unat f mod 5 = 0" by simp
    then have "unat f = 5 * (unat f div 5)" by presburger
    with True show ?thesis by simp
  next
    case False
    have "unat f - unat f mod 5 = 5 * (unat f div 5)" by presburger
    with False s show ?thesis by simp
  qed
qed

lemma split_bytes:
  fixes f :: uint16
  shows "unat (ucast (drop_bit 8 f) :: byte) * 256 + unat (ucast (f AND 0xFF) :: byte) = unat f"
proof -
  have lt: "unat f < 65536"
    using unsigned_less [of f, where 'a = nat] by simp
  have hi: "unat (ucast (drop_bit 8 f) :: byte) = unat f div 256"
  proof -
    have "unat (drop_bit 8 f) = unat f div 256"
      by (simp add: unat_drop_bit_eq drop_bit_eq_div unat_div)
    moreover from lt have "unat f div 256 < 256" by simp
    ultimately show ?thesis
      by (simp add: unsigned_ucast_eq take_bit_eq_mod)
  qed
  have ff: "(0xFF :: uint16) = mask 8"
    by (simp add: mask_eq_exp_minus_1)
  have lo: "unat (ucast (f AND 0xFF) :: byte) = unat f mod 256"
    unfolding ff
    by (simp add: unsigned_ucast_eq unsigned_take_bit_eq take_bit_eq_mod unat_mod flip: take_bit_eq_mask)
  show ?thesis
    unfolding hi lo by simp
qed


abbreviation (input) any :: "'r \<Rightarrow> bool" where
  "any \<equiv> (\<lambda>_. True)"

abbreviation (input) nil :: "error option \<Rightarrow> bool" where
  "nil \<equiv> (\<lambda>e. e = None)"

abbreviation (input) nil2 :: "'v \<times> error option \<Rightarrow> bool" where
  "nil2 \<equiv> (\<lambda>p. snd p = None)"

lemma frames_trace [simp]:
  "frames (b\<lparr>trace := tr\<rparr>) = concat (map frame_of tr)"
  by (simp add: frames_def)

lemma frames_other [simp]:
  "frames (b\<lparr>logged := lg\<rparr>) = frames b"
  "frames (b\<lparr>write_acks := wa\<rparr>) = frames b"
  "frames (b\<lparr>byte_reads := br\<rparr>) = frames b"
  "frames (b\<lparr>buf_reads := bf\<rparr>) = frames b"
  "frames (b\<lparr>pin_acks := pa\<rparr>) = frames b"
  "frames (b\<lparr>connect_acks := ca\<rparr>) = frames b"
  by (simp_all add: frames_def)

lemma frames_bus_of [simp]: "frames (bus_of w) = frames w"
  by (simp add: frames_def)

text \<open>The polling loops write no frame, whatever they return.\<close>

lemma frames_conn_ReadByte: "frames (snd (conn_ReadByte b)) = frames b"
  by (simp add: conn_ReadByte_def frames_def split: list.splits)

lemma frames_debugf: "frames (snd (debugf dm dl fmt args b)) = frames b"
  by (simp add: debugf_def logf_def split: option.splits)

lemma frames_getStatus: "frames (snd (getStatus b)) = frames b"
  by (simp add: getStatus_def tryE_def bindP_def conn_WriteByte_def conn_ReadByte_def frames_def
        split: list.splits option.splits)

lemma frames_waitCTS: "frames (snd (waitCTS dm dl st b)) = frames b"
proof (induction dm dl st b rule: waitCTS.induct)
  case (1 dm dl status b)
  show ?case
  proof (cases "status AND STATUS_CTS = 0")
    case False
    then show ?thesis by (simp add: waitCTS.simps)
  next
    case True
    obtain r b' where R: "conn_ReadByte b = (r, b')" by (cases "conn_ReadByte b")
    with frames_conn_ReadByte [of b] have f1: "frames b' = frames b" by simp
    show ?thesis
    proof (cases r)
      case (Ret x)
      obtain st e where x: "x = (st, e)" by (cases x)
      show ?thesis
      proof (cases e)
        case (Some err)
        then show ?thesis
          using True R Ret x f1 by (simp add: waitCTS.simps [of dm dl status b])
      next
        case None
        obtain r2 b2 where D: "debugf dm dl ''status: %x (%d)\<newline>'' [ArgInt (uint st), ArgInt (uint st)] b' = (r2, b2)"
          by (cases "debugf dm dl ''status: %x (%d)\<newline>'' [ArgInt (uint st), ArgInt (uint st)] b'")
        have f2: "frames b2 = frames b'"
          using frames_debugf [of dm dl "''status: %x (%d)\<newline>''" "[ArgInt (uint st), ArgInt (uint st)]" b'] D
          by simp
        show ?thesis
        proof (cases r2)
          case (Ret u)
          have R1: "(Ret (st, None), b') = conn_ReadByte b"
            using R \<open>r = Ret x\<close> x None by simp
          have D1: "(Ret u, b2) = debugf dm dl ''status: %x (%d)\<newline>'' [ArgInt (uint st), ArgInt (uint st)] b'"
            using D Ret by simp
          have "frames (snd (waitCTS dm dl st b2)) = frames b2"
            by (rule "1.IH" [OF True R1 refl refl refl D1 refl])
          then show ?thesis
            using True R \<open>r = Ret x\<close> x None D Ret f1 f2
            by (simp add: waitCTS.simps [of dm dl status b])
        next
          case (Panic msg)
          then show ?thesis
            using True R \<open>r = Ret x\<close> x None D f1 f2
            by (simp add: waitCTS.simps [of dm dl status b])
        next
          case Starved
          then show ?thesis
            using True R \<open>r = Ret x\<close> x None D f1 f2
            by (simp add: waitCTS.simps [of dm dl status b])
        qed
      qed
    next
      case (Panic msg)
      then show ?thesis
        using True R f1 by (simp add: waitCTS.simps [of dm dl status b])
    next
      case Starved
      then show ?thesis
        using True R f1 by (simp add: waitCTS.simps [of dm dl status b])
    qed
  qed
qed

lemma frames_readTuneMeasure_loop: "frames (snd (readTuneMeasure_loop b)) = frames b"
proof (induction b rule: readTuneMeasure_loop.induct)
  case (1 b)
  obtain r b' where R: "getStatus b = (r, b')" by (cases "getStatus b")
  with frames_getStatus [of b] have f1: "frames b' = frames b" by simp
  show ?case
  proof (cases r)
    case (Ret x)
    obtain st e where x: "x = (st, e)" by (cases x)
    show ?thesis
    proof (cases "e = None \<and> st \<noteq> 0x81")
      case True
      have R1: "(Ret (st, None), b') = getStatus b"
        using R Ret x True by simp
      have "frames (snd (readTuneMeasure_loop b')) = frames b'"
        using True by (intro "1.IH" [OF R1 refl refl refl]) simp
      then show ?thesis
        using R Ret x True f1 by (simp add: readTuneMeasure_loop.simps [of b])
    next
      case False
      then show ?thesis
        using R Ret x f1 by (cases e) (auto simp: readTuneMeasure_loop.simps [of b])
    qed
  next
    case (Panic msg)
    then show ?thesis
      using R f1 by (simp add: readTuneMeasure_loop.simps [of b])
  next
    case Starved
    then show ?thesis
      using R f1 by (simp add: readTuneMeasure_loop.simps [of b])
  qed
qed

lemma frames_tuneFM_loop: "frames (snd (tuneFM_loop b)) = frames b"
proof (induction b rule: tuneFM_loop.induct)
  case (1 b)
  obtain r b' where R: "getStatus b = (r, b')" by (cases "getStatus b")
  with frames_getStatus [of b] have f1: "frames b' = frames b" by simp
  show ?case
  proof (cases r)
    case (Ret x)
    obtain st e where x: "x = (st, e)" by (cases x)
    show ?thesis
    proof (cases "e = None \<and> st AND 0x81 \<noteq> 0x81")
      case True
      have R1: "(Ret (st, None), b') = getStatus b"
        using R Ret x True by simp
      have "frames (snd (tuneFM_loop b')) = frames b'"
        using True by (intro "1.IH" [OF R1 refl refl refl]) simp
      then show ?thesis
        using R Ret x True f1 by (simp add: tuneFM_loop.simps [of b])
    next
      case False
      then show ?thesis
        using R Ret x f1 by (cases e) (auto simp: tuneFM_loop.simps [of b])
    qed
  next
    case (Panic msg)
    then show ?thesis
      using R f1 by (simp add: tuneFM_loop.simps [of b])
  next
    case Starved
    then show ?thesis
      using R f1 by (simp add: tuneFM_loop.simps [of b])
  qed
qed

text \<open>The frame of a tune-measure command for a frequency.\<close>

definition measure_frame :: "uint16 \<Rightarrow> command" where
  "measure_frame freq = [CMD_TX_TUNE_MEASURE, 0, ucast (drop_bit 8 freq), ucast (freq AND 0xFF), 0]"

definition round5 :: "uint16 \<Rightarrow> uint16" where
  "round5 freq0 = (if freq0 mod 5 \<noteq> 0 then freq0 - freq0 mod 5 else freq0)"

text \<open>The driver of \<^verbatim>\<open>part_001\<close> with the fields of a driver of \<^verbatim>\<open>radio.go\<close>.\<close>

definition p1_of :: "Si4713Driver \<Rightarrow> Si4713Driver_p1" where
  "p1_of s = \<lparr>name_p1 = name s, i2cAddr_p1 = i2cAddr s,
     config = \<lparr>TransmitFrequency = transmitFrequency s,
       AlternateFrequency = alternateFrequency s, TransmitPower = transmitPower s,
       ResetPin = resetPin s, DebugMode = debugMode s,
       WithFrequencyScan = withFrequencyScan s,
       StopAfterFrequencyScan = stopAfterFrequencyScan s, HasRDS = hasRDS s,
       ProgramID = programID s, StationName = stationName s, RdsMessage = rdsMessage s,
       DebugLog = debugLog s, Log = log s\<rparr>\<rparr>"

lemma same_driver_p1_of: "same_driver s (p1_of s)"
  by (simp add: same_driver_def p1_of_def)

text \<open>
  \<open>writes ok m fs\<close>: in every run of \<open>m\<close>, whatever its outcome, the frames written are
  the first \<open>k\<close> of \<open>fs\<close>, in this order, for some \<open>k\<close>; and all of \<open>fs\<close> when \<open>m\<close>
  returns a value that \<open>ok\<close> accepts.
\<close>

definition writes :: "('r \<Rightarrow> bool) \<Rightarrow> ('a bus_scheme, 'r) prog \<Rightarrow> command list \<Rightarrow> bool" where
  "writes ok m fs = (\<forall>b. \<exists>k\<le>length fs. frames (snd (m b)) = frames b @ take k fs
      \<and> (\<forall>r. fst (m b) = Ret r \<longrightarrow> ok r \<longrightarrow> k = length fs))"

lemma writesI:
  "(\<And>b. \<exists>k\<le>length fs. frames (snd (m b)) = frames b @ take k fs
      \<and> (\<forall>r. fst (m b) = Ret r \<longrightarrow> ok r \<longrightarrow> k = length fs)) \<Longrightarrow> writes ok m fs"
  by (simp add: writes_def)

lemma writesD:
  "writes ok m fs \<Longrightarrow> \<exists>k\<le>length fs. frames (snd (m b)) = frames b @ take k fs
      \<and> (\<forall>r. fst (m b) = Ret r \<longrightarrow> ok r \<longrightarrow> k = length fs)"
  by (simp add: writes_def)

lemma writes_quiet: "(\<And>b. frames (snd (m b)) = frames b) \<Longrightarrow> writes ok m []"
  by (simp add: writes_def)

lemma writes_ret: "writes ok (ret x) []"
  by (simp add: writes_def)

lemma writes_Pair [simp]: "writes ok (Pair r) []"
  by (simp add: writes_def)

lemma writes_weaken: "writes any m fs \<Longrightarrow> writes ok m fs"
  unfolding writes_def by blast

lemma writes_bind:
  assumes m: "writes okm m fs"
    and f: "\<And>x. okm x \<Longrightarrow> writes ok (f x) gs"
    and stop: "\<And>x b. \<not> okm x \<Longrightarrow> \<exists>y. f x b = (Ret y, b) \<and> \<not> ok y"
  shows "writes ok (bindP m f) (fs @ gs)"
proof (rule writesI)
  fix b
  obtain o1 b1 where M: "m b = (o1, b1)" by (cases "m b")
  from writesD [OF m, of b] M obtain k where k: "k \<le> length fs"
    and fr: "frames b1 = frames b @ take k fs"
    and full: "\<And>r. o1 = Ret r \<Longrightarrow> okm r \<Longrightarrow> k = length fs"
    by auto
  show "\<exists>k\<le>length (fs @ gs). frames (snd (bindP m f b)) = frames b @ take k (fs @ gs)
      \<and> (\<forall>r. fst (bindP m f b) = Ret r \<longrightarrow> ok r \<longrightarrow> k = length (fs @ gs))"
  proof (cases o1)
    case (Ret x)
    show ?thesis
    proof (cases "okm x")
      case True
      from full [OF Ret True] have kf: "k = length fs" .
      from writesD [OF f [OF True], of b1] obtain j where j: "j \<le> length gs"
        and fr2: "frames (snd (f x b1)) = frames b1 @ take j gs"
        and full2: "\<forall>r. fst (f x b1) = Ret r \<longrightarrow> ok r \<longrightarrow> j = length gs"
        by auto
      have B: "bindP m f b = f x b1"
        using M Ret by (simp add: bindP_def)
      show ?thesis
        unfolding B
        by (rule exI [of _ "length fs + j"]) (use j fr fr2 full2 kf in auto)
    next
      case False
      from stop [OF False, of b1] obtain y where y: "f x b1 = (Ret y, b1)" and ny: "\<not> ok y"
        by blast
      have B: "bindP m f b = (Ret y, b1)"
        using M Ret y by (simp add: bindP_def)
      show ?thesis
        unfolding B
        by (rule exI [of _ k]) (use k fr ny in auto)
    qed
  next
    case (Panic msg)
    have B: "bindP m f b = (Panic msg, b1)"
      using M Panic by (simp add: bindP_def)
    show ?thesis
      unfolding B
      by (rule exI [of _ k]) (use k fr in auto)
  next
    case Starved
    have B: "bindP m f b = (Starved, b1)"
      using M Starved by (simp add: bindP_def)
    show ?thesis
      unfolding B
      by (rule exI [of _ k]) (use k fr in auto)
  qed
qed

lemma writes_bindP:
  assumes "writes any m fs" and "\<And>x. writes ok (f x) gs"
  shows "writes ok (bindP m f) (fs @ gs)"
  by (rule writes_bind [OF assms(1)]) (simp_all add: assms(2))

lemma writes_seqP: "writes any m fs \<Longrightarrow> writes ok k gs \<Longrightarrow> writes ok (seqP m k) (fs @ gs)"
  unfolding seqP_def by (rule writes_bindP)

lemma writes_ifOk:
  assumes "writes nil m fs" and "writes nil k gs"
  shows "writes nil (ifOk m k) (fs @ gs)"
  unfolding ifOk_def
  by (rule writes_bind [OF assms(1)]) (auto simp: assms(2))

lemma writes_tryE:
  assumes "writes nil m fs" and "writes nil2 k gs"
  shows "writes nil2 (tryE m z k) (fs @ gs)"
  unfolding tryE_def
  by (rule writes_bind [OF assms(1)]) (auto simp: assms(2))

lemma writes_tryV:
  assumes "writes nil2 m fs" and "\<And>v. writes nil2 (k v) gs"
  shows "writes nil2 (tryV m z k) (fs @ gs)"
  unfolding tryV_def
  by (rule writes_bind [OF assms(1)]) (auto simp: assms(2) split: prod.splits)

lemma writes_seqP_quiet: "writes any m [] \<Longrightarrow> writes ok k gs \<Longrightarrow> writes ok (seqP m k) gs"
  using writes_seqP [of m "[]" ok k gs] by simp

lemma writes_ifOk_eq:
  "writes nil m fs \<Longrightarrow> writes nil k gs \<Longrightarrow> hs = fs @ gs \<Longrightarrow> writes nil (ifOk m k) hs"
  by (simp add: writes_ifOk)

lemma frames_logf: "frames (snd (logf dl fmt args b)) = frames b"
  by (simp add: logf_def split: option.splits)

lemma frames_conn_WriteByte: "frames (snd (conn_WriteByte v b)) = frames b"
  by (simp add: conn_WriteByte_def frames_def split: list.splits)

lemma frames_conn_Read: "frames (snd (conn_Read sz b)) = frames b"
  by (simp add: conn_Read_def frames_def split: list.splits)

lemma writes_debugf: "writes ok (debugf dm dl fmt args) []"
  by (rule writes_quiet) (rule frames_debugf)

lemma writes_logf: "writes ok (logf dl fmt args) []"
  by (rule writes_quiet) (rule frames_logf)

lemma writes_conn_ReadByte: "writes ok conn_ReadByte []"
  by (rule writes_quiet) (rule frames_conn_ReadByte)

lemma writes_conn_Read: "writes ok (conn_Read sz) []"
  by (rule writes_quiet) (rule frames_conn_Read)

lemma writes_waitCTS: "writes ok (waitCTS dm dl st) []"
  by (rule writes_quiet) (rule frames_waitCTS)

lemma writes_readTuneMeasure_loop: "writes ok readTuneMeasure_loop []"
  by (rule writes_quiet) (rule frames_readTuneMeasure_loop)

lemma writes_tuneFM_loop: "writes ok tuneFM_loop []"
  by (rule writes_quiet) (rule frames_tuneFM_loop)

lemma writes_conn_Write: "writes ok (conn_Write cmd) [cmd]"
proof (rule writesI)
  fix b :: "'a bus_scheme"
  show "\<exists>k\<le>length [cmd]. frames (snd (conn_Write cmd b)) = frames b @ take k [cmd]
      \<and> (\<forall>r. fst (conn_Write cmd b) = Ret r \<longrightarrow> ok r \<longrightarrow> k = length [cmd])"
  proof (cases "conn b \<and> write_acks b \<noteq> []")
    case True
    then show ?thesis
      by (intro exI [of _ 1]) (auto simp: conn_Write_def frames_def split: list.splits)
  next
    case False
    then show ?thesis
      by (intro exI [of _ 0]) (auto simp: conn_Write_def frames_def split: list.splits)
  qed
qed

lemma writes_sendCommand_p1: "writes nil (sendCommand_p1 s cmd) [cmd]"
proof -
  have tail: "writes nil (case cmd of
       [] \<Rightarrow> panic ''index out of range''
     | c0 # _ \<Rightarrow>
         if c0 = CMD_POWER_DOWN then ret None
         else waitCTS (DebugMode (config s)) (DebugLog (config s)) 0) []"
  proof (cases cmd)
    case Nil
    then show ?thesis by (simp add: writes_def)
  next
    case (Cons c0 cs)
    then show ?thesis
      by (simp add: writes_waitCTS writes_ret)
  qed
  show ?thesis
    unfolding sendCommand_p1_def
    by (rule writes_seqP_quiet [OF writes_debugf],
        rule writes_ifOk_eq [OF writes_conn_Write tail]) simp
qed

lemma writes_setProperty_p1: "writes nil (setProperty_p1 s property val) [property_frame property val]"
  unfolding setProperty_p1_frame
  by (rule writes_seqP_quiet [OF writes_debugf writes_sendCommand_p1])

lemma writes_readTuneMeasure_p1:
  "writes nil (readTuneMeasure_p1 s freq0) [measure_frame (round5 freq0)]"
  unfolding readTuneMeasure_p1_def Let_def cmdTuneMeasure_p1_def measure_frame_def round5_def
  by (rule writes_seqP_quiet [OF writes_debugf],
      rule writes_ifOk_eq [OF writes_sendCommand_p1 writes_readTuneMeasure_loop])
     simp

lemma writes_powerUp_p1:
  "writes nil (powerUp_p1 s)
     [cmdPowerUp_p1,
      property_frame PROP_REFCLK_FREQ 32768,
      property_frame PROP_TX_PREEMPHASIS 0,
      property_frame PROP_TX_ACOMP_ENABLE 0x02,
      property_frame PROP_TX_ACOMP_GAIN 10,
      property_frame PROP_TX_ACOMP_ENABLE 0x02]"
  unfolding powerUp_p1_def
  by (rule writes_ifOk_eq, rule writes_sendCommand_p1,
      rule writes_ifOk [OF writes_setProperty_p1], rule writes_ifOk [OF writes_setProperty_p1],
      rule writes_ifOk [OF writes_setProperty_p1], rule writes_ifOk [OF writes_setProperty_p1],
      rule writes_setProperty_p1, simp)

text \<open>From \<^verbatim>\<open>part_001\<close> to \<^verbatim>\<open>radio.go\<close>.\<close>

lemma sim_at:
  assumes "sim A B" and "tmpl_ok (tmpl w)"
  shows "fst (A w) = fst (B (bus_of w))" and "bus_of (snd (A w)) = snd (B (bus_of w))"
  using assms by (simp_all add: sim_def)

lemma writes_radio:
  assumes "sim A B" and "writes ok B fs" and "tmpl_ok (tmpl w)"
  shows "\<exists>k\<le>length fs. frames (snd (A w)) = frames w @ take k fs
      \<and> (\<forall>r. fst (A w) = Ret r \<longrightarrow> ok r \<longrightarrow> k = length fs)"
proof -
  have "frames (snd (A w)) = frames (bus_of (snd (A w)))" by simp
  also have "\<dots> = frames (snd (B (bus_of w)))"
    by (simp only: sim_at(2) [OF assms(1,3)])
  finally have fr: "frames (snd (A w)) = frames (snd (B (bus_of w)))" .
  from writesD [OF assms(2), of "bus_of w"] show ?thesis
    unfolding fr sim_at(1) [OF assms(1,3)] by simp
qed

text \<open>
  A script of single-byte reads that lets one handshake succeed: status bytes without
  bit \<open>0x80\<close>, then one with it.  \<open>cts_wait\<close> gives the script that is left after the
  handshake, \<open>cts_waits n\<close> the script left after \<open>n\<close> handshakes; \<open>None\<close> when a read
  fails or the script ends before.
\<close>

fun cts_wait :: "(nat + byte) list \<Rightarrow> (nat + byte) list option" where
  "cts_wait [] = None"
| "cts_wait (Inl e # rs) = None"
| "cts_wait (Inr x # rs) = (if x AND STATUS_CTS = 0 then cts_wait rs else Some rs)"

fun cts_waits :: "nat \<Rightarrow> (nat + byte) list \<Rightarrow> (nat + byte) list option" where
  "cts_waits 0 rs = Some rs"
| "cts_waits (Suc n) rs = (case cts_wait rs of None \<Rightarrow> None | Some rs' \<Rightarrow> cts_waits n rs')"

lemma cts_wait_split:
  "cts_wait rs = Some rest \<Longrightarrow>
   \<exists>pre r. rs = map Inr pre @ Inr r # rest \<and> (\<forall>x\<in>set pre. x AND STATUS_CTS = 0) \<and> r AND STATUS_CTS \<noteq> 0"
proof (induction rs rule: cts_wait.induct)
  case 1
  then show ?case by simp
next
  case (2 e rs)
  then show ?case by simp
next
  case (3 x rs)
  show ?case
  proof (cases "x AND STATUS_CTS = 0")
    case True
    with 3 obtain pre r where "rs = map Inr pre @ Inr r # rest"
      "\<forall>x\<in>set pre. x AND STATUS_CTS = 0" "r AND STATUS_CTS \<noteq> 0"
      by auto
    with True show ?thesis
      by (intro exI [of _ "x # pre"] exI [of _ r]) simp
  next
    case False
    with 3 show ?thesis
      by (intro exI [of _ "[]"] exI [of _ x]) simp
  qed
qed

lemma cts_waits_add:
  "cts_waits (n + m) rs = Some rest \<Longrightarrow> \<exists>mid. cts_waits n rs = Some mid \<and> cts_waits m mid = Some rest"
  by (induction n arbitrary: rs) (auto split: option.splits)

lemma waitCTS_cts:
  assumes "dm \<longrightarrow> dl \<noteq> None" "conn b" "cts_wait (byte_reads b) = Some rest"
  shows "\<exists>b'. waitCTS dm dl 0 b = (Ret None, b') \<and> conn b' \<and> write_acks b' = write_acks b
      \<and> byte_reads b' = rest \<and> frames b' = frames b"
proof -
  from cts_wait_split [OF assms(3)] obtain pre r where
    rd: "byte_reads b = map Inr pre @ Inr r # rest"
    and pre: "\<forall>x\<in>set pre. x AND 0x80 = 0" and r: "r AND 0x80 \<noteq> 0"
    by blast
  have z: "(0 :: byte) AND 0x80 = 0" by simp
  show ?thesis
    unfolding waitCTS_run [OF assms(1) pre r z rd assms(2)]
    using assms(2) by (simp add: frames_def)
qed

text \<open>
  \<open>sends m fs\<close>: on a connection, when the transport acknowledges the next
  \<open>length fs\<close> writes and its single-byte reads let as many handshakes succeed, \<open>m\<close>
  returns \<^verbatim>\<open>nil\<close>, has written the frames \<open>fs\<close>, and has used up just these
  responses.
\<close>

definition sends :: "('a bus_scheme, error option) prog \<Rightarrow> command list \<Rightarrow> bool" where
  "sends m fs = (\<forall>b acks rest.
     conn b \<and> write_acks b = replicate (length fs) None @ acks
       \<and> cts_waits (length fs) (byte_reads b) = Some rest
     \<longrightarrow> (\<exists>b'. m b = (Ret None, b') \<and> conn b' \<and> write_acks b' = acks \<and> byte_reads b' = rest
               \<and> frames b' = frames b @ fs))"

lemma sendsD:
  "sends m fs \<Longrightarrow> conn b \<Longrightarrow> write_acks b = replicate (length fs) None @ acks
   \<Longrightarrow> cts_waits (length fs) (byte_reads b) = Some rest
   \<Longrightarrow> \<exists>b'. m b = (Ret None, b') \<and> conn b' \<and> write_acks b' = acks \<and> byte_reads b' = rest
               \<and> frames b' = frames b @ fs"
  unfolding sends_def by blast

lemma sends_ifOk:
  assumes "sends m fs" and "sends k gs"
  shows "sends (ifOk m k) (fs @ gs)"
  unfolding sends_def
proof (intro allI impI)
  fix b :: "'a bus_scheme" and acks rest
  assume a: "conn b \<and> write_acks b = replicate (length (fs @ gs)) None @ acks
       \<and> cts_waits (length (fs @ gs)) (byte_reads b) = Some rest"
  then have c: "conn b"
    and w: "write_acks b = replicate (length fs) None @ (replicate (length gs) None @ acks)"
    and r: "cts_waits (length fs + length gs) (byte_reads b) = Some rest"
    by (simp_all add: replicate_add)
  from cts_waits_add [OF r] obtain mid where
    r1: "cts_waits (length fs) (byte_reads b) = Some mid"
    and r2: "cts_waits (length gs) mid = Some rest"
    by blast
  from sendsD [OF assms(1) c w r1] obtain b1 where
    m: "m b = (Ret None, b1)" and c1: "conn b1"
    and w1: "write_acks b1 = replicate (length gs) None @ acks"
    and rd1: "byte_reads b1 = mid" and f1: "frames b1 = frames b @ fs"
    by blast
  from r2 rd1 have r2': "cts_waits (length gs) (byte_reads b1) = Some rest" by simp
  from sendsD [OF assms(2) c1 w1 r2'] obtain b2 where
    k: "k b1 = (Ret None, b2)" and c2: "conn b2" and w2: "write_acks b2 = acks"
    and rd2: "byte_reads b2 = rest" and f2: "frames b2 = frames b1 @ gs"
    by blast
  show "\<exists>b'. ifOk m k b = (Ret None, b') \<and> conn b' \<and> write_acks b' = acks \<and> byte_reads b' = rest
               \<and> frames b' = frames b @ fs @ gs"
    using m k c2 w2 rd2 f1 f2 by (intro exI [of _ b2]) simp
qed

lemma sends_ifOk_eq:
  "sends m fs \<Longrightarrow> sends k gs \<Longrightarrow> hs = fs @ gs \<Longrightarrow> sends (ifOk m k) hs"
  by (simp add: sends_ifOk)

lemma sends_debugf:
  assumes "dm \<longrightarrow> dl \<noteq> None" and "sends k fs"
  shows "sends (seqP (debugf dm dl fmt args) k) fs"
  unfolding sends_def
proof (intro allI impI)
  fix b :: "'a bus_scheme" and acks rest
  assume a: "conn b \<and> write_acks b = replicate (length fs) None @ acks
       \<and> cts_waits (length fs) (byte_reads b) = Some rest"
  let ?b1 = "b\<lparr>logged := logged b @ (if dm then [(the dl, fmt, args)] else [])\<rparr>"
  have d: "debugf dm dl fmt args b = (Ret (), ?b1)"
    by (rule debugf_ok [OF assms(1)])
  from a have "conn ?b1" "write_acks ?b1 = replicate (length fs) None @ acks"
    "cts_waits (length fs) (byte_reads ?b1) = Some rest"
    by simp_all
  from sendsD [OF assms(2) this] obtain b' where
    "k ?b1 = (Ret None, b')" "conn b'" "write_acks b' = acks" "byte_reads b' = rest"
    "frames b' = frames ?b1 @ fs"
    by blast
  then show "\<exists>b'. seqP (debugf dm dl fmt args) k b = (Ret None, b') \<and> conn b' \<and> write_acks b' = acks
      \<and> byte_reads b' = rest \<and> frames b' = frames b @ fs"
    using d by (intro exI [of _ b']) simp
qed

lemma sends_sendCommand_p1:
  assumes "c0 \<noteq> CMD_POWER_DOWN" and "DebugMode (config s) \<longrightarrow> DebugLog (config s) \<noteq> None"
  shows "sends (sendCommand_p1 s (c0 # cs)) [c0 # cs]"
  unfolding sends_def
proof (intro allI impI)
  fix b :: "'a bus_scheme" and acks rest
  assume a: "conn b \<and> write_acks b = replicate (length [c0 # cs]) None @ acks
       \<and> cts_waits (length [c0 # cs]) (byte_reads b) = Some rest"
  then have c: "conn b" and w: "write_acks b = None # acks"
    and r: "cts_wait (byte_reads b) = Some rest"
    by (simp_all split: option.splits)
  let ?b1 = "b\<lparr>logged := logged b @ (if DebugMode (config s)
                 then [(the (DebugLog (config s)), ''*** Command: %s\<newline>'', [sliceToString (c0 # cs)])]
                 else []),
      write_acks := acks, trace := trace b @ [EvWrite (c0 # cs)]\<rparr>"
  have B: "sendCommand_p1 s (c0 # cs) b
      = waitCTS (DebugMode (config s)) (DebugLog (config s)) 0 ?b1"
    using assms c w by (simp add: sendCommand_p1_def debugf_ok)
  have "conn ?b1" "cts_wait (byte_reads ?b1) = Some rest"
    using c r by simp_all
  from waitCTS_cts [OF assms(2) this] obtain b' where
    "waitCTS (DebugMode (config s)) (DebugLog (config s)) 0 ?b1 = (Ret None, b')"
    "conn b'" "write_acks b' = write_acks ?b1" "byte_reads b' = rest" "frames b' = frames ?b1"
    by blast
  then show "\<exists>b'. sendCommand_p1 s (c0 # cs) b = (Ret None, b') \<and> conn b' \<and> write_acks b' = acks
      \<and> byte_reads b' = rest \<and> frames b' = frames b @ [c0 # cs]"
    unfolding B by (intro exI [of _ b']) (simp add: frames_def)
qed

lemma sends_setProperty_p1:
  assumes "DebugMode (config s) \<longrightarrow> DebugLog (config s) \<noteq> None"
  shows "sends (setProperty_p1 s property val) [property_frame property val]"
proof -
  have "sends (sendCommand_p1 s (property_frame property val)) [property_frame property val]"
    unfolding property_frame_def
    by (rule sends_sendCommand_p1 [OF _ assms]) simp
  then show ?thesis
    unfolding setProperty_p1_frame by (rule sends_debugf [OF assms])
qed

lemma sends_powerUp_p1:
  assumes "DebugMode (config s) \<longrightarrow> DebugLog (config s) \<noteq> None"
  shows "sends (powerUp_p1 s)
     [cmdPowerUp_p1,
      property_frame PROP_REFCLK_FREQ 32768,
      property_frame PROP_TX_PREEMPHASIS 0,
      property_frame PROP_TX_ACOMP_ENABLE 0x02,
      property_frame PROP_TX_ACOMP_GAIN 10,
      property_frame PROP_TX_ACOMP_ENABLE 0x02]"
proof -
  have p: "sends (sendCommand_p1 s cmdPowerUp_p1) [cmdPowerUp_p1]"
    unfolding cmdPowerUp_p1_def by (rule sends_sendCommand_p1 [OF _ assms]) simp
  note q = sends_setProperty_p1 [OF assms]
  show ?thesis
    unfolding powerUp_p1_def
    by (rule sends_ifOk_eq, rule p,
        rule sends_ifOk [OF q], rule sends_ifOk [OF q],
        rule sends_ifOk [OF q], rule sends_ifOk [OF q],
        rule q, simp)
qed

lemma sends_radio:
  assumes "sim A B" and "sends B fs" and "tmpl_ok (tmpl w)"
    and "conn w" and "write_acks w = replicate (length fs) None @ acks"
    and "cts_waits (length fs) (byte_reads w) = Some rest"
  shows "fst (A w) = Ret None \<and> conn (snd (A w)) \<and> write_acks (snd (A w)) = acks
      \<and> byte_reads (snd (A w)) = rest \<and> frames (snd (A w)) = frames w @ fs
      \<and> tmpl_ok (tmpl (snd (A w)))"
proof -
  have "conn (bus_of w)" "write_acks (bus_of w) = replicate (length fs) None @ acks"
    "cts_waits (length fs) (byte_reads (bus_of w)) = Some rest"
    using assms(4,5,6) by simp_all
  from sendsD [OF assms(2) this] obtain b' where
    B: "B (bus_of w) = (Ret None, b')" and p: "conn b'" "write_acks b' = acks"
    "byte_reads b' = rest" "frames b' = frames (bus_of w) @ fs"
    by blast
  obtain r w' where A: "A w = (r, w')" by (cases "A w")
  from simD [OF assms(1,3) A] B have ok: "tmpl_ok (tmpl w')" and r: "r = Ret None"
    and b': "b' = bus_of w'"
    by simp_all
  from p have "conn w'" "write_acks w' = acks" "byte_reads w' = rest" "frames w' = frames w @ fs"
    unfolding b' by simp_all
  with A r ok show ?thesis by simp
qed

lemma frames_sendCommand_p1:
  "frames (snd (sendCommand_p1 s cmd b)) = frames b @
     (if conn b \<and> write_acks b \<noteq> [] \<and> (DebugMode (config s) \<longrightarrow> DebugLog (config s) \<noteq> None)
      then [cmd] else [])"
proof (cases "DebugMode (config s) \<longrightarrow> DebugLog (config s) \<noteq> None")
  case False
  then show ?thesis
    by (simp add: sendCommand_p1_def seqP_def bindP_def debugf_def logf_def)
next
  case dbg: True
  let ?b1 = "b\<lparr>logged := logged b @ (if DebugMode (config s)
                 then [(the (DebugLog (config s)), ''*** Command: %s\<newline>'', [sliceToString cmd])]
                 else [])\<rparr>"
  let ?tail = "case cmd of
       [] \<Rightarrow> panic ''index out of range''
     | c0 # _ \<Rightarrow>
         if c0 = CMD_POWER_DOWN then ret None
         else waitCTS (DebugMode (config s)) (DebugLog (config s)) 0"
  have S: "sendCommand_p1 s cmd b = ifOk (conn_Write cmd) ?tail ?b1"
    by (simp add: sendCommand_p1_def debugf_ok [OF dbg])
  have tail: "frames (snd (?tail b2)) = frames b2" for b2 :: "'a bus_scheme"
    by (cases cmd) (simp_all add: frames_waitCTS)
  show ?thesis
  proof (cases "conn b \<and> write_acks b \<noteq> []")
    case False
    then show ?thesis
      unfolding S
      by (auto simp: ifOk_def bindP_def conn_Write_def split: list.splits)
  next
    case True
    then obtain a as where w: "write_acks b = a # as" and c: "conn b"
      by (cases "write_acks b") auto
    let ?b2 = "?b1\<lparr>write_acks := as, trace := trace ?b1 @ [EvWrite cmd]\<rparr>"
    have W: "conn_Write cmd ?b1 = (Ret (map_option BusError a), ?b2)"
      using w c by (simp add: conn_Write_def)
    have f2: "frames ?b2 = frames b @ [cmd]"
      by (simp add: frames_def)
    show ?thesis
    proof (cases a)
      case None
      with W have "ifOk (conn_Write cmd) ?tail ?b1 = ?tail ?b2" by simp
      with tail [of ?b2] f2 True dbg show ?thesis
        unfolding S by simp
    next
      case (Some e)
      with W have "ifOk (conn_Write cmd) ?tail ?b1 = (Ret (Some (BusError e)), ?b2)" by simp
      with f2 True dbg show ?thesis
        unfolding S by simp
    qed
  qed
qed

lemma frames_ifOk_quiet:
  assumes "\<And>b. frames (snd (k b)) = frames b"
  shows "frames (snd (ifOk m k b)) = frames (snd (m b))"
proof -
  obtain r b1 where M: "m b = (r, b1)" by (cases "m b")
  show ?thesis
  proof (cases r)
    case (Ret x)
    with M assms [of b1] show ?thesis
      by (cases x) (simp_all add: ifOk_def bindP_def)
  next
    case (Panic msg)
    with M show ?thesis by (simp add: ifOk_def bindP_def)
  next
    case Starved
    with M show ?thesis by (simp add: ifOk_def bindP_def)
  qed
qed

lemma frames_readTuneMeasure_p1:
  "frames (snd (readTuneMeasure_p1 s freq b)) = frames b @
     (if conn b \<and> write_acks b \<noteq> [] \<and> (DebugMode (config s) \<longrightarrow> DebugLog (config s) \<noteq> None)
      then [measure_frame (round5 freq)] else [])"
proof (cases "DebugMode (config s) \<longrightarrow> DebugLog (config s) \<noteq> None")
  case False
  then show ?thesis
    by (simp add: readTuneMeasure_p1_def Let_def seqP_def bindP_def debugf_def logf_def)
next
  case dbg: True
  let ?b1 = "b\<lparr>logged := logged b @ (if DebugMode (config s)
                 then [(the (DebugLog (config s)), ''Measuring frequency: %.2f MHz\<newline>'',
                        [ArgHundredths (uint (round5 freq))])]
                 else [])\<rparr>"
  have R: "readTuneMeasure_p1 s freq b
      = ifOk (sendCommand_p1 s (measure_frame (round5 freq))) readTuneMeasure_loop ?b1"
    by (simp add: readTuneMeasure_p1_def Let_def debugf_ok [OF dbg] cmdTuneMeasure_p1_def
          measure_frame_def round5_def)
  show ?thesis
    unfolding R frames_ifOk_quiet [of readTuneMeasure_loop, OF frames_readTuneMeasure_loop]
      frames_sendCommand_p1
    by simp
qed

lemma frames_radio:
  assumes "sim A B" and "tmpl_ok (tmpl w)"
  shows "frames (snd (A w)) = frames (snd (B (bus_of w)))"
proof -
  have "frames (snd (A w)) = frames (bus_of (snd (A w)))" by simp
  also have "\<dots> = frames (snd (B (bus_of w)))"
    by (simp only: sim_at(2) [OF assms])
  finally show ?thesis .
qed

lemma getStatus_ok:
  assumes "conn b" "write_acks b = None # acks" "byte_reads b = Inr x # rs"
  shows "getStatus b = (Ret (x, None),
     b\<lparr>write_acks := acks, byte_reads := rs,
       trace := trace b @ [EvWriteByte CMD_GET_INT_STATUS, EvReadByte]\<rparr>)"
  using assms
  by (simp add: getStatus_def tryE_def bindP_def conn_WriteByte_def conn_ReadByte_def)

lemma readTuneMeasure_loop_run:
  assumes "conn b" "write_acks b = replicate (Suc (length sts)) None @ acks"
    "byte_reads b = map Inr sts @ Inr 0x81 # rest" "\<forall>x\<in>set sts. x \<noteq> 0x81"
  shows "\<exists>b'. readTuneMeasure_loop b = (Ret None, b') \<and> conn b' \<and> write_acks b' = acks
      \<and> byte_reads b' = rest \<and> frames b' = frames b"
  using assms
proof (induction sts arbitrary: b)
  case Nil
  then have G: "getStatus b = (Ret (0x81, None),
     b\<lparr>write_acks := acks, byte_reads := rest,
       trace := trace b @ [EvWriteByte CMD_GET_INT_STATUS, EvReadByte]\<rparr>)"
    by (intro getStatus_ok) simp_all
  show ?case
    using Nil.prems(1)
    by (subst readTuneMeasure_loop.simps) (simp add: G frames_def)
next
  case (Cons x sts)
  let ?b1 = "b\<lparr>write_acks := replicate (Suc (length sts)) None @ acks,
       byte_reads := map Inr sts @ Inr 0x81 # rest,
       trace := trace b @ [EvWriteByte CMD_GET_INT_STATUS, EvReadByte]\<rparr>"
  from Cons.prems have G: "getStatus b = (Ret (x, None), ?b1)"
    by (intro getStatus_ok) simp_all
  from Cons.prems have nx: "x \<noteq> 0x81" by simp
  have L: "readTuneMeasure_loop b = readTuneMeasure_loop ?b1"
    by (subst readTuneMeasure_loop.simps) (simp add: G nx)
  have "\<exists>b'. readTuneMeasure_loop ?b1 = (Ret None, b') \<and> conn b' \<and> write_acks b' = acks
      \<and> byte_reads b' = rest \<and> frames b' = frames ?b1"
    using Cons.prems by (intro Cons.IH) simp_all
  then show ?case
    unfolding L by (simp add: frames_def)
qed

lemma readTuneMeasure_p1_run:
  assumes dbg: "DebugMode (config s) \<longrightarrow> DebugLog (config s) \<noteq> None"
    and c: "conn b"
    and w: "write_acks b = replicate (length sts + 2) None @ acks"
    and r: "cts_wait (byte_reads b) = Some (map Inr sts @ Inr 0x81 # rest)"
    and n: "\<forall>x\<in>set sts. x \<noteq> 0x81"
  shows "\<exists>b'. readTuneMeasure_p1 s freq b = (Ret None, b') \<and> conn b' \<and> write_acks b' = acks
      \<and> byte_reads b' = rest \<and> frames b' = frames b @ [measure_frame (round5 freq)]"
proof -
  let ?b1 = "b\<lparr>logged := logged b @ (if DebugMode (config s)
                 then [(the (DebugLog (config s)), ''Measuring frequency: %.2f MHz\<newline>'',
                        [ArgHundredths (uint (round5 freq))])]
                 else [])\<rparr>"
  have R: "readTuneMeasure_p1 s freq b
      = ifOk (sendCommand_p1 s (measure_frame (round5 freq))) readTuneMeasure_loop ?b1"
    by (simp add: readTuneMeasure_p1_def Let_def debugf_ok [OF dbg] cmdTuneMeasure_p1_def
          measure_frame_def round5_def)
  have S: "sends (sendCommand_p1 s (measure_frame (round5 freq))) [measure_frame (round5 freq)]"
    unfolding measure_frame_def by (rule sends_sendCommand_p1 [OF _ dbg]) simp
  have "conn ?b1"
    "write_acks ?b1 = replicate (length [measure_frame (round5 freq)]) None
        @ (replicate (Suc (length sts)) None @ acks)"
    "cts_waits (length [measure_frame (round5 freq)]) (byte_reads ?b1)
        = Some (map Inr sts @ Inr 0x81 # rest)"
    using c w r by simp_all
  from sendsD [OF S this] obtain b2 where
    s2: "sendCommand_p1 s (measure_frame (round5 freq)) ?b1 = (Ret None, b2)"
    and c2: "conn b2" and w2: "write_acks b2 = replicate (Suc (length sts)) None @ acks"
    and r2: "byte_reads b2 = map Inr sts @ Inr 0x81 # rest"
    and f2: "frames b2 = frames ?b1 @ [measure_frame (round5 freq)]"
    by blast
  from readTuneMeasure_loop_run [OF c2 w2 r2 n] obtain b' where
    "readTuneMeasure_loop b2 = (Ret None, b')" "conn b'" "write_acks b' = acks"
    "byte_reads b' = rest" "frames b' = frames b2"
    by blast
  with s2 f2 show ?thesis
    unfolding R by (intro exI [of _ b']) simp
qed


section \<open>C3: the frequency of a tune-measure frame\<close>

lemma round5_bytes:
  "unat (ucast (drop_bit 8 (round5 freq)) :: byte) * 256 + unat (ucast (round5 freq AND 0xFF) :: byte)
     = 5 * (unat freq div 5)"
  using split_bytes [of "round5 freq"] round5 [of freq] by (simp add: round5_def)

lemma p1_of_debug [simp]:
  "DebugMode (config (p1_of s)) = debugMode s" "DebugLog (config (p1_of s)) = debugLog s"
  by (simp_all add: p1_of_def)

text \<open>
  Claim C3, as amended.  For every input frequency (in hundredths of MHz),
  \<^verbatim>\<open>readTuneMeasure\<close> rounds the frequency down to the nearest 0.05 MHz step before
  splitting it into high and low bytes.  Let \<open>h\<close> and \<open>l\<close> be the big-endian bytes of
  the largest multiple of 5 hundredths of MHz that does not exceed the input.  In every
  run, whatever its outcome (\<^verbatim>\<open>nil\<close>, an error, a panic, or no return), the frames
  written are the one frame \<open>[0x32, 0, h, l, 0]\<close> when the driver holds a connection,
  the transport answers the write and the debug sink is set if the debug mode is on,
  and no frame otherwise.  And the call does return \<^verbatim>\<open>nil\<close> when the transport
  co-operates: it acknowledges the write of the frame and of each status opcode, lets
  the handshake succeed, and answers the status polls with bytes \<open>sts\<close> other than
  \<open>0x81\<close> followed by \<open>0x81\<close>; the responses after these are left unread.  This holds
  for both files.
\<close>

theorem readTuneMeasure_rounds_to_0_05:
  assumes "tmpl_ok (tmpl w)"
  shows "\<exists>h l. unat h * 256 + unat l = 5 * (unat freq div 5)
     \<and> frames (snd (readTuneMeasure s freq w)) = frames w @
         (if conn w \<and> write_acks w \<noteq> [] \<and> (debugMode s \<longrightarrow> debugLog s \<noteq> None)
          then [[CMD_TX_TUNE_MEASURE, 0, h, l, 0]] else [])
     \<and> frames (snd (readTuneMeasure_p1 s1 freq w)) = frames w @
         (if conn w \<and> write_acks w \<noteq> [] \<and> (DebugMode (config s1) \<longrightarrow> DebugLog (config s1) \<noteq> None)
          then [[CMD_TX_TUNE_MEASURE, 0, h, l, 0]] else [])
     \<and> (conn w \<and> write_acks w = replicate (length sts + 2) None @ acks
          \<and> cts_wait (byte_reads w) = Some (map Inr sts @ Inr 0x81 # rest)
          \<and> (\<forall>x\<in>set sts. x \<noteq> 0x81)
        \<longrightarrow> ((debugMode s \<longrightarrow> debugLog s \<noteq> None) \<longrightarrow>
               fst (readTuneMeasure s freq w) = Ret None
               \<and> write_acks (snd (readTuneMeasure s freq w)) = acks
               \<and> byte_reads (snd (readTuneMeasure s freq w)) = rest)
          \<and> ((DebugMode (config s1) \<longrightarrow> DebugLog (config s1) \<noteq> None) \<longrightarrow>
               fst (readTuneMeasure_p1 s1 freq w) = Ret None
               \<and> write_acks (snd (readTuneMeasure_p1 s1 freq w)) = acks
               \<and> byte_reads (snd (readTuneMeasure_p1 s1 freq w)) = rest))"
proof -
  let ?g = "round5 freq"
  let ?h = "ucast (drop_bit 8 ?g) :: byte" and ?l = "ucast (?g AND 0xFF) :: byte"
  note sim = sim_readTuneMeasure [OF same_driver_p1_of, of s freq]
  have 1: "unat ?h * 256 + unat ?l = 5 * (unat freq div 5)"
    by (rule round5_bytes)
  have 2: "frames (snd (readTuneMeasure s freq w)) = frames w @
         (if conn w \<and> write_acks w \<noteq> [] \<and> (debugMode s \<longrightarrow> debugLog s \<noteq> None)
          then [[CMD_TX_TUNE_MEASURE, 0, ?h, ?l, 0]] else [])"
    unfolding frames_radio [OF sim assms] frames_readTuneMeasure_p1
    by (simp add: measure_frame_def)
  have 3: "frames (snd (readTuneMeasure_p1 s1 freq w)) = frames w @
         (if conn w \<and> write_acks w \<noteq> [] \<and> (DebugMode (config s1) \<longrightarrow> DebugLog (config s1) \<noteq> None)
          then [[CMD_TX_TUNE_MEASURE, 0, ?h, ?l, 0]] else [])"
    unfolding frames_readTuneMeasure_p1 by (simp add: measure_frame_def)
  have 4: "fst (readTuneMeasure s freq w) = Ret None
               \<and> write_acks (snd (readTuneMeasure s freq w)) = acks
               \<and> byte_reads (snd (readTuneMeasure s freq w)) = rest"
    if script: "conn w \<and> write_acks w = replicate (length sts + 2) None @ acks
          \<and> cts_wait (byte_reads w) = Some (map Inr sts @ Inr 0x81 # rest)
          \<and> (\<forall>x\<in>set sts. x \<noteq> 0x81)"
      and dbg: "debugMode s \<longrightarrow> debugLog s \<noteq> None"
  proof -
    have d: "DebugMode (config (p1_of s)) \<longrightarrow> DebugLog (config (p1_of s)) \<noteq> None"
      using dbg by simp
    from script have "conn (bus_of w)"
      "write_acks (bus_of w) = replicate (length sts + 2) None @ acks"
      "cts_wait (byte_reads (bus_of w)) = Some (map Inr sts @ Inr 0x81 # rest)"
      "\<forall>x\<in>set sts. x \<noteq> 0x81"
      by simp_all
    from readTuneMeasure_p1_run [OF d this, of freq] obtain b' where
      B: "readTuneMeasure_p1 (p1_of s) freq (bus_of w) = (Ret None, b')"
      and p: "write_acks b' = acks" "byte_reads b' = rest"
      by blast
    from sim_at [OF sim assms] B
    have "fst (readTuneMeasure s freq w) = Ret None" "bus_of (snd (readTuneMeasure s freq w)) = b'"
      by simp_all
    with p show ?thesis by auto
  qed
  have 5: "fst (readTuneMeasure_p1 s1 freq w) = Ret None
               \<and> write_acks (snd (readTuneMeasure_p1 s1 freq w)) = acks
               \<and> byte_reads (snd (readTuneMeasure_p1 s1 freq w)) = rest"
    if script: "conn w \<and> write_acks w = replicate (length sts + 2) None @ acks
          \<and> cts_wait (byte_reads w) = Some (map Inr sts @ Inr 0x81 # rest)
          \<and> (\<forall>x\<in>set sts. x \<noteq> 0x81)"
      and dbg: "DebugMode (config s1) \<longrightarrow> DebugLog (config s1) \<noteq> None"
  proof -
    from script have "conn w"
      "write_acks w = replicate (length sts + 2) None @ acks"
      "cts_wait (byte_reads w) = Some (map Inr sts @ Inr 0x81 # rest)"
      "\<forall>x\<in>set sts. x \<noteq> 0x81"
      by simp_all
    from readTuneMeasure_p1_run [OF dbg this, of freq] show ?thesis
      by auto
  qed
  from 1 2 3 4 5 show ?thesis
    by (intro exI [of _ ?h] exI [of _ ?l]) blast
qed

theorem readTuneMeasure_rounds_to_0_05_witness:
  "\<exists>h l. unat h * 256 + unat l = (8760 :: nat)
     \<and> fst (readTuneMeasure demo_driver 8763
          (world0\<lparr>write_acks := [None, None, None],
             byte_reads := [Inr 0x00, Inr 0x80, Inr 0x01, Inr 0x81]\<rparr>)) = Ret None
     \<and> frames (snd (readTuneMeasure demo_driver 8763
          (world0\<lparr>write_acks := [None, None, None],
             byte_reads := [Inr 0x00, Inr 0x80, Inr 0x01, Inr 0x81]\<rparr>)))
         = [[CMD_TX_TUNE_MEASURE, 0, h, l, 0]]
     \<and> fst (readTuneMeasure_p1 demo_driver_p1 8763
          (world0\<lparr>write_acks := [None, None, None],
             byte_reads := [Inr 0x00, Inr 0x80, Inr 0x01, Inr 0x81]\<rparr>)) = Ret None
     \<and> frames (snd (readTuneMeasure_p1 demo_driver_p1 8763
          (world0\<lparr>write_acks := [None, None, None],
             byte_reads := [Inr 0x00, Inr 0x80, Inr 0x01, Inr 0x81]\<rparr>)))
         = [[CMD_TX_TUNE_MEASURE, 0, h, l, 0]]"
proof -
  let ?w = "world0\<lparr>write_acks := [None, None, None],
             byte_reads := [Inr 0x00, Inr 0x80, Inr 0x01, Inr 0x81]\<rparr>"
  have ok: "tmpl_ok (tmpl ?w)"
    by (simp add: world0_def tmpl_ok_templates0)
  have fr: "frames world0 = []" "conn world0"
    by (simp_all add: world0_def frames_def)
  have dbg: "\<not> debugMode demo_driver" "\<not> DebugMode (config demo_driver_p1)"
    by (simp_all add: demo_driver_def demo_driver_p1_def demo_config_def)
  from readTuneMeasure_rounds_to_0_05 [OF ok, where freq = 8763 and s = demo_driver
      and ?s1.0 = demo_driver_p1 and sts = "[0x01]" and acks = "[]" and rest = "[]"]
  show ?thesis
    by (simp add: fr dbg) blast
qed

text \<open>
  The claim as stated has the step ten times too large (0.5 MHz, multiples of 50):
  8760 is measured as 8760, not as 8750.  The source's comment agrees with the code:
  \<^verbatim>\<open>// check freq is multiple of 50khz\<close>, and 50 kHz is 0.05 MHz.
\<close>

theorem readTuneMeasure_step_counterexample:
  "fst (readTuneMeasure demo_driver 8760
          (world0\<lparr>write_acks := [None, None], byte_reads := [Inr 0x80, Inr 0x81]\<rparr>)) = Ret None
   \<and> frames (snd (readTuneMeasure demo_driver 8760
          (world0\<lparr>write_acks := [None, None], byte_reads := [Inr 0x80, Inr 0x81]\<rparr>)))
       = [[0x32, 0, 0x22, 0x38, 0]]
   \<and> unat (0x22 :: byte) * 256 + unat (0x38 :: byte) = 8760
   \<and> 50 * (8760 div 50) = (8750 :: nat)"
  by (simp add: readTuneMeasure_def sendT_def sendCommand_def
        seqP_def bindP_def ifOk_def assign_def tryE_def getStatus_def
        demo_driver_def world0_def waitCTS.simps readTuneMeasure_loop.simps
        conn_ReadByte_def conn_WriteByte_def Let_def frames_def)

section \<open>C2: the frames of the power-up sequence\<close>

abbreviation (input) power_up_frames :: "command list" where
  "power_up_frames \<equiv>
     [[CMD_POWER_UP, 0x12, 0x50],
      [CMD_SET_PROPERTY, 0, 0x02, 0x01, 0x80, 0x00],
      [CMD_SET_PROPERTY, 0, 0x21, 0x06, 0x00, 0x00],
      [CMD_SET_PROPERTY, 0, 0x22, 0x00, 0x00, 0x02],
      [CMD_SET_PROPERTY, 0, 0x22, 0x04, 0x00, 0x0A],
      [CMD_SET_PROPERTY, 0, 0x22, 0x00, 0x00, 0x02]]"

lemma power_up_frames_eq:
  "[cmdPowerUp_p1,
      property_frame PROP_REFCLK_FREQ 32768,
      property_frame PROP_TX_PREEMPHASIS 0,
      property_frame PROP_TX_ACOMP_ENABLE 0x02,
      property_frame PROP_TX_ACOMP_GAIN 10,
      property_frame PROP_TX_ACOMP_ENABLE 0x02] = power_up_frames"
  by (simp add: property_frame_def cmdPowerUp_p1_def)

text \<open>
  Claim C2, as amended.  The frames of \<^verbatim>\<open>powerUp\<close> are six: the power-up frame first,
  then five set-property frames in this order: reference clock (\<open>0x0201\<close>) 32768,
  pre-emphasis (\<open>0x2106\<close>) 0, limiter/AGC enable (\<open>0x2200\<close>) 2, limiter gain
  (\<open>0x2204\<close>) 10, and limiter/AGC enable (\<open>0x2200\<close>) 2 once more.  In every run,
  whatever its outcome, the frames written are the first \<open>k\<close> of these six, in this order
  and nothing else, and all six when the call returns \<^verbatim>\<open>nil\<close>.  And the call does
  return \<^verbatim>\<open>nil\<close>, with the six frames written, when the transport co-operates: the
  driver holds a connection, the next six writes are acknowledged, the single-byte reads
  let six handshakes succeed, and the debug sink is set if the debug mode is on; the
  responses after these are left unread.  This holds for both files.
\<close>

theorem powerUp_frames:
  assumes "tmpl_ok (tmpl w)"
  shows "(\<exists>k\<le>6. frames (snd (powerUp s w)) = frames w @ take k power_up_frames
            \<and> (fst (powerUp s w) = Ret None \<longrightarrow> k = 6))
       \<and> (\<exists>k\<le>6. frames (snd (powerUp_p1 s1 w)) = frames w @ take k power_up_frames
            \<and> (fst (powerUp_p1 s1 w) = Ret None \<longrightarrow> k = 6))
       \<and> (conn w \<and> write_acks w = replicate 6 None @ acks
            \<and> cts_waits 6 (byte_reads w) = Some rest
          \<longrightarrow> ((debugMode s \<longrightarrow> debugLog s \<noteq> None) \<longrightarrow>
                 fst (powerUp s w) = Ret None
                 \<and> frames (snd (powerUp s w)) = frames w @ power_up_frames
                 \<and> write_acks (snd (powerUp s w)) = acks
                 \<and> byte_reads (snd (powerUp s w)) = rest)
            \<and> ((DebugMode (config s1) \<longrightarrow> DebugLog (config s1) \<noteq> None) \<longrightarrow>
                 fst (powerUp_p1 s1 w) = Ret None
                 \<and> frames (snd (powerUp_p1 s1 w)) = frames w @ power_up_frames
                 \<and> write_acks (snd (powerUp_p1 s1 w)) = acks
                 \<and> byte_reads (snd (powerUp_p1 s1 w)) = rest))"
proof -
  note sim = sim_powerUp [OF same_driver_p1_of, of s]
  have len: "length power_up_frames = 6" by simp
  have 1: "\<exists>k\<le>6. frames (snd (powerUp s w)) = frames w @ take k power_up_frames
            \<and> (fst (powerUp s w) = Ret None \<longrightarrow> k = 6)"
    using writes_radio [OF sim writes_powerUp_p1 assms]
    unfolding power_up_frames_eq len by blast
  have 2: "\<exists>k\<le>6. frames (snd (powerUp_p1 s1 w)) = frames w @ take k power_up_frames
            \<and> (fst (powerUp_p1 s1 w) = Ret None \<longrightarrow> k = 6)"
    using writesD [OF writes_powerUp_p1, of s1 w]
    unfolding power_up_frames_eq len by blast
  have 3: "fst (powerUp s w) = Ret None
                 \<and> frames (snd (powerUp s w)) = frames w @ power_up_frames
                 \<and> write_acks (snd (powerUp s w)) = acks
                 \<and> byte_reads (snd (powerUp s w)) = rest"
    if script: "conn w \<and> write_acks w = replicate 6 None @ acks
            \<and> cts_waits 6 (byte_reads w) = Some rest"
      and dbg: "debugMode s \<longrightarrow> debugLog s \<noteq> None"
  proof -
    have d: "DebugMode (config (p1_of s)) \<longrightarrow> DebugLog (config (p1_of s)) \<noteq> None"
      using dbg by simp
    note S = sends_powerUp_p1 [OF d, unfolded power_up_frames_eq]
    from script have "conn w" "write_acks w = replicate (length power_up_frames) None @ acks"
      "cts_waits (length power_up_frames) (byte_reads w) = Some rest"
      unfolding len by simp_all
    from sends_radio [OF sim S assms this] show ?thesis by simp
  qed
  have 4: "fst (powerUp_p1 s1 w) = Ret None
                 \<and> frames (snd (powerUp_p1 s1 w)) = frames w @ power_up_frames
                 \<and> write_acks (snd (powerUp_p1 s1 w)) = acks
                 \<and> byte_reads (snd (powerUp_p1 s1 w)) = rest"
    if script: "conn w \<and> write_acks w = replicate 6 None @ acks
            \<and> cts_waits 6 (byte_reads w) = Some rest"
      and dbg: "DebugMode (config s1) \<longrightarrow> DebugLog (config s1) \<noteq> None"
  proof -
    note S = sends_powerUp_p1 [OF dbg, unfolded power_up_frames_eq]
    from script have "conn w" "write_acks w = replicate (length power_up_frames) None @ acks"
      "cts_waits (length power_up_frames) (byte_reads w) = Some rest"
      unfolding len by simp_all
    from sendsD [OF S this] show ?thesis by auto
  qed
  from 1 2 3 4 show ?thesis by blast
qed

theorem powerUp_frames_witness:
  "fst (powerUp demo_driver
          (world0\<lparr>write_acks := [None, None, None, None, None, None],
            byte_reads := [Inr 0x00, Inr 0x80, Inr 0x80, Inr 0x80, Inr 0x80, Inr 0x80, Inr 0x80]\<rparr>))
     = Ret None
   \<and> frames (snd (powerUp demo_driver
          (world0\<lparr>write_acks := [None, None, None, None, None, None],
            byte_reads := [Inr 0x00, Inr 0x80, Inr 0x80, Inr 0x80, Inr 0x80, Inr 0x80, Inr 0x80]\<rparr>)))
     = [[0x01, 0x12, 0x50],
        [0x12, 0, 0x02, 0x01, 0x80, 0x00],
        [0x12, 0, 0x21, 0x06, 0x00, 0x00],
        [0x12, 0, 0x22, 0x00, 0x00, 0x02],
        [0x12, 0, 0x22, 0x04, 0x00, 0x0A],
        [0x12, 0, 0x22, 0x00, 0x00, 0x02]]
   \<and> fst (powerUp_p1 demo_driver_p1
          (world0\<lparr>write_acks := [None, None, None, None, None, None],
            byte_reads := [Inr 0x00, Inr 0x80, Inr 0x80, Inr 0x80, Inr 0x80, Inr 0x80, Inr 0x80]\<rparr>))
     = Ret None
   \<and> frames (snd (powerUp_p1 demo_driver_p1
          (world0\<lparr>write_acks := [None, None, None, None, None, None],
            byte_reads := [Inr 0x00, Inr 0x80, Inr 0x80, Inr 0x80, Inr 0x80, Inr 0x80, Inr 0x80]\<rparr>)))
     = [[0x01, 0x12, 0x50],
        [0x12, 0, 0x02, 0x01, 0x80, 0x00],
        [0x12, 0, 0x21, 0x06, 0x00, 0x00],
        [0x12, 0, 0x22, 0x00, 0x00, 0x02],
        [0x12, 0, 0x22, 0x04, 0x00, 0x0A],
        [0x12, 0, 0x22, 0x00, 0x00, 0x02]]"
proof -
  let ?w = "world0\<lparr>write_acks := [None, None, None, None, None, None],
            byte_reads := [Inr 0x00, Inr 0x80, Inr 0x80, Inr 0x80, Inr 0x80, Inr 0x80, Inr 0x80]\<rparr>"
  have ok: "tmpl_ok (tmpl ?w)"
    by (simp add: world0_def tmpl_ok_templates0)
  have fr: "frames world0 = []" "conn world0"
    by (simp_all add: world0_def frames_def)
  have dbg: "\<not> debugMode demo_driver" "\<not> DebugMode (config demo_driver_p1)"
    by (simp_all add: demo_driver_def demo_driver_p1_def demo_config_def)
  have n6: "(6 :: nat) = Suc (Suc (Suc (Suc (Suc (Suc 0)))))"
    by simp
  have six: "replicate 6 None = [None, None, None, None, None, None :: nat option]"
    unfolding n6 by simp
  have script: "cts_waits 6 [Inr 0x00, Inr 0x80, Inr 0x80, Inr 0x80, Inr 0x80, Inr 0x80, Inr 0x80] = Some []"
    unfolding n6 by simp
  from powerUp_frames [OF ok, where s = demo_driver and ?s1.0 = demo_driver_p1
      and acks = "[]" and rest = "[]"]
  show ?thesis
    by (simp add: fr dbg six script)
qed

text \<open>
  The claim as stated counts four set-property commands; the code issues five (the
  last statement of \<^verbatim>\<open>powerUp\<close> writes \<^verbatim>\<open>PROP_TX_ACOMP_ENABLE\<close> a second time).
\<close>

theorem powerUp_four_writes_counterexample:
  "fst (powerUp demo_driver
          (world0\<lparr>write_acks := [None, None, None, None, None, None],
            byte_reads := [Inr 0x80, Inr 0x80, Inr 0x80, Inr 0x80, Inr 0x80, Inr 0x80]\<rparr>)) = Ret None
   \<and> length (filter (\<lambda>f. hd f = CMD_SET_PROPERTY) (frames (snd (powerUp demo_driver
          (world0\<lparr>write_acks := [None, None, None, None, None, None],
            byte_reads := [Inr 0x80, Inr 0x80, Inr 0x80, Inr 0x80, Inr 0x80, Inr 0x80]\<rparr>))))) = 5"
  by (simp add: powerUp_def setProperty_def
        sendT_def sendCommand_def
        seqP_def bindP_def ifOk_def assign_def
        demo_driver_def world0_def
        waitCTS.simps conn_ReadByte_def frames_def)

section \<open>C4: the frequencies of the scan\<close>

text \<open>\<open>quiet m\<close>: \<open>m\<close> writes no frame, whatever its outcome.\<close>

definition quiet :: "('a bus_scheme, 'r) prog \<Rightarrow> bool" where
  "quiet m = (\<forall>b. frames (snd (m b)) = frames b)"

lemma quietI: "(\<And>b. frames (snd (m b)) = frames b) \<Longrightarrow> quiet m"
  by (simp add: quiet_def)

lemma quiet_writes: "quiet m \<Longrightarrow> writes ok m []"
  by (simp add: quiet_def writes_def)

lemma quiet_ret: "quiet (ret x)"
  by (simp add: quiet_def)

lemma quiet_Pair [simp]: "quiet (Pair r)"
  by (simp add: quiet_def)

lemma quiet_bindP:
  assumes "quiet m" and "\<And>x. quiet (f x)"
  shows "quiet (bindP m f)"
proof (rule quietI)
  fix b
  obtain r b1 where M: "m b = (r, b1)" by (cases "m b")
  with assms(1) have f1: "frames b1 = frames b" by (auto simp: quiet_def dest: spec [of _ b])
  show "frames (snd (bindP m f b)) = frames b"
  proof (cases r)
    case (Ret x)
    with M assms(2) [of x] f1 show ?thesis
      by (simp add: bindP_def quiet_def)
  next
    case (Panic msg)
    with M f1 show ?thesis by (simp add: bindP_def)
  next
    case Starved
    with M f1 show ?thesis by (simp add: bindP_def)
  qed
qed

lemma quiet_seqP: "quiet m \<Longrightarrow> quiet k \<Longrightarrow> quiet (seqP m k)"
  unfolding seqP_def by (rule quiet_bindP)

lemma quiet_tryV: "quiet m \<Longrightarrow> (\<And>v. quiet (k v)) \<Longrightarrow> quiet (tryV m z k)"
  unfolding tryV_def by (rule quiet_bindP) (auto simp: quiet_ret split: prod.splits option.splits)

lemma quiet_conn_ReadByte: "quiet conn_ReadByte"
  by (rule quietI) (rule frames_conn_ReadByte)

lemma quiet_debugf: "quiet (debugf dm dl fmt args)"
  by (rule quietI) (rule frames_debugf)

lemma writes_tryE_eq:
  "writes nil m fs \<Longrightarrow> writes nil2 k gs \<Longrightarrow> hs = fs @ gs \<Longrightarrow> writes nil2 (tryE m z k) hs"
  by (simp add: writes_tryE)

lemma writes_readTuneStatus_p1: "writes nil2 (readTuneStatus_p1 s) [cmdReadTuneStatus_p1]"
proof -
  have tail: "quiet (tryV conn_ReadByte (0, 0, 0, 0) (\<lambda>_.
     tryV conn_ReadByte (0, 0, 0, 0) (\<lambda>_.
     tryV conn_ReadByte (0, 0, 0, 0) (\<lambda>val2.
     tryV conn_ReadByte (0, 0, 0, 0) (\<lambda>val3.
     let currFreq = push_bit 8 (ucast val2 :: uint16) OR ucast val3 in
     tryV conn_ReadByte (0, 0, 0, 0) (\<lambda>_.
     tryV conn_ReadByte (0, 0, 0, 0) (\<lambda>currdBuV.
     tryV conn_ReadByte (0, 0, 0, 0) (\<lambda>currAntCap.
     bindP conn_ReadByte (\<lambda>(currNoiseLevel, err).
       ret ((currFreq, currdBuV, currAntCap, currNoiseLevel), err))))))))))"
    unfolding Let_def
    by (intro quiet_tryV quiet_bindP quiet_conn_ReadByte) (simp add: quiet_ret split: prod.splits)
  show ?thesis
    unfolding readTuneStatus_p1_def
    by (rule writes_tryE_eq [OF writes_sendCommand_p1 quiet_writes [OF tail]]) simp
qed

text \<open>
  The frames of the scan from \<open>f\<close> on: for each frequency of the loop a tune-measure
  frame and a tune-status frame.
\<close>

function scan_from :: "uint16 \<Rightarrow> command list" where
  "scan_from f =
     (if f < 10800 then measure_frame (round5 f) # cmdReadTuneStatus_p1 # scan_from (f + 10)
      else [])"
  by pat_completeness auto
termination
  by (relation "measure (\<lambda>f. 10800 - unat f)")
     (auto simp: word_less_nat_alt unat_word_ariths)

declare scan_from.simps [simp del]

lemma writes_scanFrequencies_loop_p1:
  "writes nil (scanFrequencies_loop_p1 s f) (scan_from f)"
proof (induction s f rule: scanFrequencies_loop_p1.induct)
  case (1 s f)
  show ?case
  proof (cases "f < 10800")
    case False
    then show ?thesis
      by (simp add: scanFrequencies_loop_p1.simps [of s f] scan_from.simps [of f])
  next
    case True
    note IH = "1.IH" [OF True]
    have B: "scanFrequencies_loop_p1 s f =
        ifOk (readTuneMeasure_p1 s f)
       (bindP (readTuneStatus_p1 s) (\<lambda>((_, _, _, currNoiseLevel), err).
          case err of
            Some e \<Rightarrow> ret (Some e)
          | None \<Rightarrow>
              seqP (debug_p1 s ''Noise level on %.2f MHz is %d\<newline>''
                      [ArgHundredths (uint f), ArgInt (uint currNoiseLevel)])
                   (scanFrequencies_loop_p1 s (f + 10))))"
      using True by (subst scanFrequencies_loop_p1.simps) (simp only: if_True)
    have F: "scan_from f = [measure_frame (round5 f)] @ [cmdReadTuneStatus_p1] @ scan_from (f + 10)"
      using True by (subst scan_from.simps) simp
    have rest: "writes nil
       (bindP (readTuneStatus_p1 s :: ('a bus_scheme, (uint16 \<times> byte \<times> byte \<times> byte) \<times> error option) prog)
          (\<lambda>((_, _, _, currNoiseLevel), err).
          case err of
            Some e \<Rightarrow> ret (Some e)
          | None \<Rightarrow>
              seqP (debug_p1 s ''Noise level on %.2f MHz is %d\<newline>''
                      [ArgHundredths (uint f), ArgInt (uint currNoiseLevel)])
                   (scanFrequencies_loop_p1 s (f + 10))))
       ([cmdReadTuneStatus_p1] @ scan_from (f + 10))"
      apply (rule writes_bind [OF writes_readTuneStatus_p1])
      subgoal for x
        by (cases x) (simp add: case_prod_beta, rule writes_seqP_quiet [OF writes_debugf IH])
      subgoal for x b
        by (cases x) (auto simp: case_prod_beta)
      done
    show ?thesis
      unfolding B F by (rule writes_ifOk [OF writes_readTuneMeasure_p1 rest])
  qed
qed


lemma hi_byte:
  fixes f :: uint16
  shows "unat (ucast (drop_bit 8 f) :: byte) = unat f div 256"
proof -
  have lt: "unat f < 65536"
    using unsigned_less [of f, where 'a = nat] by simp
  have "unat (drop_bit 8 f) = unat f div 256"
    by (simp add: unat_drop_bit_eq drop_bit_eq_div unat_div)
  moreover from lt have "unat f div 256 < 256" by simp
  ultimately show ?thesis
    by (simp add: unsigned_ucast_eq take_bit_eq_mod)
qed

lemma lo_byte:
  fixes f :: uint16
  shows "unat (ucast (f AND 0xFF) :: byte) = unat f mod 256"
proof -
  have ff: "(0xFF :: uint16) = mask 8"
    by (simp add: mask_eq_exp_minus_1)
  show ?thesis
    unfolding ff
    by (simp add: unsigned_ucast_eq unsigned_take_bit_eq take_bit_eq_mod unat_mod flip: take_bit_eq_mask)
qed

lemma measure_frame_nat:
  assumes "n < 65536"
  shows "measure_frame (of_nat n) = [0x32, 0, of_nat (n div 256), of_nat (n mod 256), 0]"
proof -
  have u: "unat (of_nat n :: uint16) = n"
    using assms by (simp add: unat_of_nat)
  have h: "(ucast (drop_bit 8 (of_nat n :: uint16)) :: byte) = of_nat (n div 256)"
  proof -
    from assms have "n div 256 < 256" by simp
    then have "unat (of_nat (n div 256) :: byte) = n div 256"
      by (simp add: unat_of_nat)
    with hi_byte [of "of_nat n"] u show ?thesis
      by (simp add: word_unat_eq_iff)
  qed
  have l: "(ucast ((of_nat n :: uint16) AND 0xFF) :: byte) = of_nat (n mod 256)"
  proof -
    have "unat (of_nat (n mod 256) :: byte) = n mod 256"
      by (simp add: unat_of_nat)
    with lo_byte [of "of_nat n"] u show ?thesis
      by (simp add: word_unat_eq_iff)
  qed
  show ?thesis
    by (simp add: measure_frame_def h l)
qed

lemma round5_nat:
  assumes "n < 65536" "n mod 5 = 0"
  shows "round5 (of_nat n) = of_nat n"
proof -
  have u: "unat (of_nat n :: uint16) = n"
    using assms(1) by (simp add: unat_of_nat)
  have "unat ((of_nat n :: uint16) mod 5) = 0"
    using assms(2) u by (simp add: unat_mod)
  then have "(of_nat n :: uint16) mod 5 = 0"
    by (simp add: unat_eq_0)
  then show ?thesis
    by (simp add: round5_def)
qed

abbreviation (input) scan_frames :: "command list" where
  "scan_frames \<equiv> concat (map (\<lambda>i. [[CMD_TX_TUNE_MEASURE, 0, of_nat ((7600 + 10 * i) div 256),
                                       of_nat ((7600 + 10 * i) mod 256), 0],
                                      [CMD_TX_TUNE_STATUS, 0x1]]) [0..<320])"

lemma scan_from_upt:
  "i \<le> 320 \<Longrightarrow> scan_from (of_nat (7600 + 10 * i))
     = concat (map (\<lambda>i. [[CMD_TX_TUNE_MEASURE, 0, of_nat ((7600 + 10 * i) div 256),
                            of_nat ((7600 + 10 * i) mod 256), 0],
                           [CMD_TX_TUNE_STATUS, 0x1]]) [i..<320])"
proof (induction "320 - i" arbitrary: i)
  case 0
  then have i: "i = 320" by simp
  have "\<not> (of_nat (7600 + 10 * 320) :: uint16) < 10800"
    by (simp add: word_less_nat_alt unat_of_nat)
  then show ?case
    unfolding i by (subst scan_from.simps) simp
next
  case (Suc k)
  then have i: "i < 320" by simp
  define n where "n = 7600 + 10 * i"
  from i have n: "n < 10800" by (simp add: n_def)
  then have big: "n < 65536" by simp
  have u: "unat (of_nat n :: uint16) = n"
    using big by (simp add: unat_of_nat)
  have lt: "(of_nat n :: uint16) < 10800"
    using n u by (simp add: word_less_nat_alt)
  have m5: "n mod 5 = 0" unfolding n_def by presburger
  have nxt: "(of_nat n :: uint16) + 10 = of_nat (7600 + 10 * Suc i)"
    by (simp add: n_def)
  have IH: "scan_from (of_nat (7600 + 10 * Suc i))
     = concat (map (\<lambda>i. [[CMD_TX_TUNE_MEASURE, 0, of_nat ((7600 + 10 * i) div 256),
                            of_nat ((7600 + 10 * i) mod 256), 0],
                           [CMD_TX_TUNE_STATUS, 0x1]]) [Suc i..<320])"
    using Suc.hyps(2) Suc.prems by (intro Suc.hyps(1)) simp_all
  have "scan_from (of_nat n) = measure_frame (round5 (of_nat n)) # cmdReadTuneStatus_p1
      # scan_from (of_nat n + 10)"
    using lt by (subst scan_from.simps) simp
  also have "\<dots> = [CMD_TX_TUNE_MEASURE, 0, of_nat (n div 256), of_nat (n mod 256), 0]
      # [CMD_TX_TUNE_STATUS, 0x1] # scan_from (of_nat (7600 + 10 * Suc i))"
    unfolding nxt round5_nat [OF big m5] measure_frame_nat [OF big]
    by (simp add: cmdReadTuneStatus_p1_def)
  finally have "scan_from (of_nat n)
     = [CMD_TX_TUNE_MEASURE, 0, of_nat (n div 256), of_nat (n mod 256), 0]
      # [CMD_TX_TUNE_STATUS, 0x1]
      # concat (map (\<lambda>i. [[CMD_TX_TUNE_MEASURE, 0, of_nat ((7600 + 10 * i) div 256),
                            of_nat ((7600 + 10 * i) mod 256), 0],
                           [CMD_TX_TUNE_STATUS, 0x1]]) [Suc i..<320])"
    unfolding IH .
  then show ?case
    unfolding n_def upt_conv_Cons [OF i] by simp
qed

lemma scan_from_7600: "scan_from 7600 = scan_frames"
  using scan_from_upt [of 0] by simp

lemma length_scan_frames: "length scan_frames = 640"
  by (simp add: length_concat comp_def sum_list_triv)

text \<open>
  Claim C4.  The loop of \<^verbatim>\<open>scanFrequencies\<close> is
  \<^verbatim>\<open>for f := uint16(7600); f < 10800; f += 10\<close>: it measures the 320 frequencies
  7600, 7610, ..., 10790 hundredths of MHz.  In every run of \<^verbatim>\<open>scanFrequencies\<close>,
  whatever its outcome, the frames written are the first \<open>k\<close> of \<open>scan_frames\<close>: for
  each of these frequencies, in this order, the tune-measure frame of the frequency and
  the tune-status frame; and all 640 when the call returns \<^verbatim>\<open>nil\<close>.  So the first
  frequency measured is 76.00 MHz, which is 11.50 MHz below the band of the source's
  comment (\<^verbatim>\<open>// Scan transmission power of entire range from 87.5 to 108.0 MHz.\<close>), and
  108.00 MHz is never measured.  This holds for both files.  The witness is a run in
  which the transport acknowledges one write and then stops answering: the one frame
  written measures 7600.
\<close>

theorem scanFrequencies_frames:
  assumes "tmpl_ok (tmpl w)"
  shows "(\<exists>k\<le>640. frames (snd (scanFrequencies s w)) = frames w @ take k scan_frames
            \<and> (fst (scanFrequencies s w) = Ret None \<longrightarrow> k = 640))
       \<and> (\<exists>k\<le>640. frames (snd (scanFrequencies_p1 s1 w)) = frames w @ take k scan_frames
            \<and> (fst (scanFrequencies_p1 s1 w) = Ret None \<longrightarrow> k = 640))"
proof -
  note sim = sim_scanFrequencies [OF same_driver_p1_of, of s]
  have W: "writes nil (scanFrequencies_p1 s') scan_frames" for s' :: Si4713Driver_p1
    unfolding scanFrequencies_p1_def
    using writes_scanFrequencies_loop_p1 [of s' 7600] by (simp only: scan_from_7600)
  have 1: "\<exists>k\<le>640. frames (snd (scanFrequencies s w)) = frames w @ take k scan_frames
            \<and> (fst (scanFrequencies s w) = Ret None \<longrightarrow> k = 640)"
    using writes_radio [OF sim W assms]
    unfolding length_scan_frames by blast
  have 2: "\<exists>k\<le>640. frames (snd (scanFrequencies_p1 s1 w)) = frames w @ take k scan_frames
            \<and> (fst (scanFrequencies_p1 s1 w) = Ret None \<longrightarrow> k = 640)"
    using writesD [OF W, of s1 w]
    unfolding length_scan_frames by blast
  from 1 2 show ?thesis by blast
qed

theorem scanFrequencies_frames_witness:
  "(\<exists>k\<le>640. frames (snd (scanFrequencies demo_driver (world0\<lparr>write_acks := [None]\<rparr>)))
             = frames (world0\<lparr>write_acks := [None]\<rparr>) @ take k scan_frames
          \<and> (fst (scanFrequencies demo_driver (world0\<lparr>write_acks := [None]\<rparr>)) = Ret None
               \<longrightarrow> k = 640))
   \<and> frames (snd (scanFrequencies demo_driver (world0\<lparr>write_acks := [None]\<rparr>)))
       = [[0x32, 0, 0x1D, 0xB0, 0]]
   \<and> frames (snd (scanFrequencies_p1 demo_driver_p1 (world0\<lparr>write_acks := [None]\<rparr>)))
       = [[0x32, 0, 0x1D, 0xB0, 0]]
   \<and> unat (0x1D :: byte) * 256 + unat (0xB0 :: byte) = 7600"
proof -
  have ok: "tmpl_ok (tmpl (world0\<lparr>write_acks := [None]\<rparr>))"
    by (simp add: world0_def tmpl_ok_templates0)
  have A: "frames (snd (scanFrequencies demo_driver (world0\<lparr>write_acks := [None]\<rparr>)))
       = [[0x32, 0, 0x1D, 0xB0, 0]]"
    unfolding scanFrequencies_def
    by (subst scanFrequencies_loop.simps)
       (simp add: readTuneMeasure_def sendT_def sendCommand_def
          seqP_def bindP_def ifOk_def assign_def
          demo_driver_def world0_def waitCTS.simps
          conn_ReadByte_def Let_def frames_def)
  have B: "frames (snd (scanFrequencies_p1 demo_driver_p1 (world0\<lparr>write_acks := [None]\<rparr>)))
       = [[0x32, 0, 0x1D, 0xB0, 0]]"
    unfolding scanFrequencies_p1_def
    by (subst scanFrequencies_loop_p1.simps)
       (simp add: readTuneMeasure_p1_def cmdTuneMeasure_p1_def sendCommand_p1_def
          seqP_def bindP_def ifOk_def
          demo_driver_p1_def demo_config_def world0_def waitCTS.simps
          conn_ReadByte_def Let_def frames_def)
  from scanFrequencies_frames [OF ok, of demo_driver demo_driver_p1]
  show ?thesis
    using A B by simp
qed

end
